theory Spec2Isabelle
  imports Main "HOL-Library.Word"
begin

unbundle bit_operations_syntax

section \<open>JavaScript values used by the modelled code\<close>

text \<open>
  A JavaScript string is a sequence of UTF-16 code units; \<open>.length\<close> counts code units.
  A Node \<open>Buffer\<close> is a sequence of bytes.
\<close>

type_synonym jsstring = "16 word list"
type_synonym buffer = "8 word list"

text \<open>An ASCII literal of the source, as code units.\<close>

definition js :: "string \<Rightarrow> jsstring" where
  "js s = map (\<lambda>c. of_char c) s"

text \<open>
  Values of the functions of the JavaScript runtime that the code calls and whose tables
  are not part of the repository: \<open>String.prototype.toLowerCase\<close> (the Unicode case
  mapping) and \<open>Buffer.from(s, 'base64')\<close> (Node's base64 decoder; \<open>None\<close> stands for a
  thrown exception). Every function that uses them takes the runtime as a parameter.
\<close>

record js_runtime =
  toLowerCase :: "jsstring \<Rightarrow> jsstring"
  buffer_from_base64 :: "jsstring \<Rightarrow> buffer option"

text \<open>
  White space and line terminators of ECMAScript: the characters removed by
  \<open>String.prototype.trim\<close> and matched by the regular expression class \<open>\s\<close>.
\<close>

definition is_js_whitespace :: "16 word \<Rightarrow> bool" where
  "is_js_whitespace c =
     (c = 0x9 \<or> c = 0xA \<or> c = 0xB \<or> c = 0xC \<or> c = 0xD \<or> c = 0x20 \<or> c = 0xA0 \<or>
      c = 0x1680 \<or> (0x2000 \<le> c \<and> c \<le> 0x200A) \<or> c = 0x2028 \<or> c = 0x2029 \<or>
      c = 0x202F \<or> c = 0x205F \<or> c = 0x3000 \<or> c = 0xFEFF)"

definition trim :: "jsstring \<Rightarrow> jsstring" where
  "trim s = rev (dropWhile is_js_whitespace (rev (dropWhile is_js_whitespace s)))"

definition startsWith :: "jsstring \<Rightarrow> jsstring \<Rightarrow> bool" where
  "startsWith s p = (take (length p) s = p)"

text \<open>\<open>s.includes(kw)\<close>: \<open>kw\<close> occurs in \<open>s\<close> as a contiguous run of code units.\<close>

fun js_includes :: "jsstring \<Rightarrow> jsstring \<Rightarrow> bool" where
  "js_includes [] kw = (kw = [])"
| "js_includes (c # s) kw = (startsWith (c # s) kw \<or> js_includes s kw)"

text \<open>
  A lower-casing of the ASCII letters only, and a decoder of the standard base64 alphabet
  (characters outside the alphabet are skipped, decoding stops at the padding): concrete
  runtimes on which the functions below can be evaluated.
\<close>

definition ascii_toLowerCase :: "jsstring \<Rightarrow> jsstring" where
  "ascii_toLowerCase s = map (\<lambda>c. if 0x41 \<le> c \<and> c \<le> 0x5A then c + 0x20 else c) s"

definition base64_value :: "16 word \<Rightarrow> nat option" where
  "base64_value c =
     (if 0x41 \<le> c \<and> c \<le> 0x5A then Some (unat c - 0x41)
      else if 0x61 \<le> c \<and> c \<le> 0x7A then Some (unat c - 0x61 + 26)
      else if 0x30 \<le> c \<and> c \<le> 0x39 then Some (unat c - 0x30 + 52)
      else if c = 0x2B then Some 62
      else if c = 0x2F then Some 63
      else None)"

fun base64_bytes :: "nat list \<Rightarrow> buffer" where
  "base64_bytes (a # b # c # d # vs) =
     of_nat (a * 4 + b div 16) # of_nat ((b mod 16) * 16 + c div 4) #
     of_nat ((c mod 4) * 64 + d) # base64_bytes vs"
| "base64_bytes [a, b, c] = [of_nat (a * 4 + b div 16), of_nat ((b mod 16) * 16 + c div 4)]"
| "base64_bytes [a, b] = [of_nat (a * 4 + b div 16)]"
| "base64_bytes _ = []"

definition base64_decode :: "jsstring \<Rightarrow> buffer option" where
  "base64_decode s =
     Some (base64_bytes (List.map_filter base64_value (takeWhile (\<lambda>c. c \<noteq> 0x3D) s)))"

definition ascii_runtime :: js_runtime where
  "ascii_runtime = \<lparr>toLowerCase = ascii_toLowerCase, buffer_from_base64 = base64_decode\<rparr>"

section \<open>Intent analyzer (src/intent-analyzer.ts)\<close>

datatype MessageIntent = Stop | Correction | Continue

definition STOP_KEYWORDS :: "jsstring list" where
  "STOP_KEYWORDS =
     [[0x505C], [0x7B97, 0x4E86], [0x53D6, 0x6D88], [0x4E0D, 0x7528, 0x4E86],
      js ''stop'', js ''cancel'', js ''abort'']"

definition CORRECTION_KEYWORDS :: "jsstring list" where
  "CORRECTION_KEYWORDS =
     [[0x4E0D, 0x5BF9], [0x9519, 0x4E86], [0x7B49, 0x7B49], [0x91CD, 0x6765],
      js ''wrong'', js ''redo'']"

definition MAX_SHORT_MESSAGE_LENGTH :: nat where
  "MAX_SHORT_MESSAGE_LENGTH = 50"

definition analyzeIntent :: "js_runtime \<Rightarrow> jsstring \<Rightarrow> MessageIntent" where
  "analyzeIntent rt text =
    (let trimmed = trim text in
     if length trimmed = 0 \<or> length trimmed > MAX_SHORT_MESSAGE_LENGTH then Continue
     else
       let lower = toLowerCase rt trimmed in
       if list_ex (\<lambda>kw. lower = kw) STOP_KEYWORDS then Stop
       else if list_ex (\<lambda>kw. lower = kw) CORRECTION_KEYWORDS then Correction
       else if list_ex (\<lambda>kw. js_includes lower kw) STOP_KEYWORDS then Stop
       else if list_ex (\<lambda>kw. js_includes lower kw) CORRECTION_KEYWORDS then Correction
       else Continue)"

section \<open>Image detector (shared/image-detector.ts)\<close>

text \<open>
  \<open>buffer.toString('ascii', start, end)\<close>: Node decodes the bytes of the slice and, for the
  \<open>ascii\<close> encoding, clears the highest bit of every byte.
\<close>

definition toString_ascii :: "buffer \<Rightarrow> nat \<Rightarrow> nat \<Rightarrow> jsstring" where
  "toString_ascii buffer start end =
     map (\<lambda>b. ucast (b AND 0x7f)) (take (end - start) (drop start buffer))"

definition detectImageMimeTypeStrict :: "buffer \<Rightarrow> jsstring option" where
  "detectImageMimeTypeStrict buffer =
    (if length buffer < 12 then None
     else if buffer ! 0 = 0x89 \<and> buffer ! 1 = 0x50 \<and> buffer ! 2 = 0x4e \<and> buffer ! 3 = 0x47 \<and>
             buffer ! 4 = 0x0d \<and> buffer ! 5 = 0x0a \<and> buffer ! 6 = 0x1a \<and> buffer ! 7 = 0x0a
       then Some (js ''image/png'')
     else if buffer ! 0 = 0xff \<and> buffer ! 1 = 0xd8 \<and> buffer ! 2 = 0xff
       then Some (js ''image/jpeg'')
     else if buffer ! 0 = 0x47 \<and> buffer ! 1 = 0x49 \<and> buffer ! 2 = 0x46 \<and> buffer ! 3 = 0x38
       then Some (js ''image/gif'')
     else if buffer ! 0 = 0x52 \<and> buffer ! 1 = 0x49 \<and> buffer ! 2 = 0x46 \<and> buffer ! 3 = 0x46 \<and>
             length buffer \<ge> 12 \<and>
             buffer ! 8 = 0x57 \<and> buffer ! 9 = 0x45 \<and> buffer ! 10 = 0x42 \<and> buffer ! 11 = 0x50
       then Some (js ''image/webp'')
     else if (buffer ! 0 = 0x49 \<and> buffer ! 1 = 0x49 \<and> buffer ! 2 = 0x2a \<and> buffer ! 3 = 0x00) \<or>
             (buffer ! 0 = 0x4d \<and> buffer ! 1 = 0x4d \<and> buffer ! 2 = 0x00 \<and> buffer ! 3 = 0x2a)
       then Some (js ''image/tiff'')
     else if length buffer \<ge> 12 \<and> toString_ascii buffer 4 8 = js ''ftyp'' \<and>
             (toString_ascii buffer 8 12 = js ''avif'' \<or> toString_ascii buffer 8 12 = js ''avis'')
       then Some (js ''image/avif'')
     else if buffer ! 0 = 0x42 \<and> buffer ! 1 = 0x4d
       then Some (js ''image/bmp'')
     else None)"

text \<open>The seven MIME types the detector can name.\<close>

definition detectable_mime_types :: "jsstring list" where
  "detectable_mime_types =
     [js ''image/png'', js ''image/jpeg'', js ''image/gif'', js ''image/webp'',
      js ''image/tiff'', js ''image/avif'', js ''image/bmp'']"

text \<open>
  \<open>detectImageMimeTypeFromBase64Strict\<close>: only the first 400 characters are decoded; an
  exception of the decoder is caught and answered with \<open>null\<close>.
\<close>

definition detectImageMimeTypeFromBase64Strict :: "js_runtime \<Rightarrow> jsstring \<Rightarrow> jsstring option" where
  "detectImageMimeTypeFromBase64Strict rt base64Data =
     (case buffer_from_base64 rt (take 400 base64Data) of
        None \<Rightarrow> None
      | Some header \<Rightarrow> detectImageMimeTypeStrict header)"

section \<open>Message attachments (src/message-attachments.ts)\<close>

text \<open>
  The fields of an \<open>ImageAttachmentInput\<close> have type \<open>unknown\<close>. The code only tells apart
  a missing value (\<open>undefined\<close> or \<open>null\<close>), a string, and anything else.
\<close>

datatype jsval = JUndefined | JNull | JString jsstring | JOther

record ImageAttachmentInput =
  in_type :: jsval
  in_data :: jsval
  in_mimeType :: jsval

record NormalizedImageAttachment =
  out_type :: jsstring
  out_data :: jsstring
  out_mimeType :: jsstring

record MimeMismatch =
  declaredMime :: jsstring
  detectedMime :: jsstring

text \<open>
  The optional callback acts on the caller's state \<open>'s\<close>. Both the options object and its
  \<open>onMimeMismatch\<close> member may be missing (\<open>options?.onMimeMismatch?.(...)\<close>).
\<close>

record 's NormalizeOptions =
  onMimeMismatch :: "(MimeMismatch \<Rightarrow> 's \<Rightarrow> 's) option"

definition call_onMimeMismatch :: "'s NormalizeOptions option \<Rightarrow> MimeMismatch \<Rightarrow> 's \<Rightarrow> 's" where
  "call_onMimeMismatch options ctx s =
     (case options of
        None \<Rightarrow> s
      | Some opts \<Rightarrow> (case onMimeMismatch opts of None \<Rightarrow> s | Some f \<Rightarrow> f ctx s))"

text \<open>Truthiness of a \<open>string | undefined | null\<close> value: present and not the empty string.\<close>

definition truthy :: "jsstring option \<Rightarrow> bool" where
  "truthy v = (case v of None \<Rightarrow> False | Some s \<Rightarrow> s \<noteq> [])"

text \<open>\<open>a || b\<close> on such values.\<close>

definition js_or :: "jsstring option \<Rightarrow> jsstring option \<Rightarrow> jsstring option" where
  "js_or a b = (if truthy a then a else b)"

definition normalizeImageMimeType :: "js_runtime \<Rightarrow> jsval \<Rightarrow> jsstring option" where
  "normalizeImageMimeType rt raw =
     (case raw of
        JString r \<Rightarrow>
          (let lowered = toLowerCase rt (trim r) in
           if \<not> startsWith lowered (js ''image/'') then None else Some lowered)
      | _ \<Rightarrow> None)"

text \<open>
  The regular expression \<open>/^\s*data:([^;,]+);base64,(.*)\s*$/is\<close>. With the \<open>i\<close> flag (and
  no \<open>u\<close> flag) a pattern character matches an input character when their upper-case forms
  agree, and a character outside ASCII never matches an ASCII one; with the \<open>s\<close> flag the
  dot matches every character, so the second group takes the rest of the input. The first
  group cannot contain \<open>;\<close> or \<open>,\<close>, hence it ends at the first of them, and there is one
  way to match at most. The result is the pair of the two groups.
\<close>

definition regex_upper :: "16 word \<Rightarrow> 16 word" where
  "regex_upper c = (if 0x61 \<le> c \<and> c \<le> 0x7A then c - 0x20 else c)"

definition matches_ignoreCase :: "jsstring \<Rightarrow> jsstring \<Rightarrow> bool" where
  "matches_ignoreCase s pat =
     (map regex_upper (take (length pat) s) = map regex_upper pat)"

definition DATA_URL_BASE64_RE_exec :: "jsstring \<Rightarrow> (jsstring \<times> jsstring) option" where
  "DATA_URL_BASE64_RE_exec raw =
     (let r1 = dropWhile is_js_whitespace raw in
      if \<not> matches_ignoreCase r1 (js ''data:'') then None
      else
        let r2 = drop 5 r1;
            g1 = takeWhile (\<lambda>c. c \<noteq> 0x3B \<and> c \<noteq> 0x2C) r2;
            r3 = dropWhile (\<lambda>c. c \<noteq> 0x3B \<and> c \<noteq> 0x2C) r2
        in if g1 = [] \<or> \<not> matches_ignoreCase r3 (js '';base64,'') then None
           else Some (g1, drop 8 r3))"

record Base64Payload =
  base64 :: jsstring
  hintedMime :: "jsstring option"

definition unwrapBase64Payload :: "js_runtime \<Rightarrow> jsstring \<Rightarrow> Base64Payload" where
  "unwrapBase64Payload rt raw =
     (case DATA_URL_BASE64_RE_exec raw of
        None \<Rightarrow> \<lparr>base64 = filter (\<lambda>c. \<not> is_js_whitespace c) raw, hintedMime = None\<rparr>
      | Some (g1, g2) \<Rightarrow>
          \<lparr>base64 = filter (\<lambda>c. \<not> is_js_whitespace c) g2,
           hintedMime = normalizeImageMimeType rt (JString g1)\<rparr>)"

definition resolveImageMimeType ::
  "jsstring option \<Rightarrow> jsstring option \<Rightarrow> 's NormalizeOptions option \<Rightarrow> 's \<Rightarrow> jsstring \<times> 's" where
  "resolveImageMimeType declared detected options s =
     (if truthy declared \<and> truthy detected \<and> declared \<noteq> detected then
        (the detected,
         call_onMimeMismatch options
           \<lparr>declaredMime = the declared, detectedMime = the detected\<rparr> s)
      else if truthy declared then (the declared, s)
      else if truthy detected then (the detected, s)
      else (js ''image/jpeg'', s))"

text \<open>
  The two values \<open>normalizeImageAttachment\<close> computes from an input whose data is the
  string \<open>d\<close>: the declared MIME type (the normalised \<open>mimeType\<close> member, else the type
  named by a data URL) and the type detected from the magic bytes of the payload.
\<close>

definition declaredMimeOf :: "js_runtime \<Rightarrow> ImageAttachmentInput \<Rightarrow> jsstring \<Rightarrow> jsstring option" where
  "declaredMimeOf rt input d =
     js_or (normalizeImageMimeType rt (in_mimeType input)) (hintedMime (unwrapBase64Payload rt d))"

definition detectedMimeOf :: "js_runtime \<Rightarrow> jsstring \<Rightarrow> jsstring option" where
  "detectedMimeOf rt d =
     detectImageMimeTypeFromBase64Strict rt (base64 (unwrapBase64Payload rt d))"

definition normalizeImageAttachment ::
  "js_runtime \<Rightarrow> ImageAttachmentInput \<Rightarrow> 's NormalizeOptions option \<Rightarrow> 's \<Rightarrow>
     NormalizedImageAttachment option \<times> 's" where
  "normalizeImageAttachment rt input options s =
     (if (case in_type input of JUndefined \<Rightarrow> JString (js ''image'') | JNull \<Rightarrow> JString (js ''image'') | v \<Rightarrow> v)
          \<noteq> JString (js ''image'') then (None, s)
      else
        (case in_data input of
           JString d \<Rightarrow>
             if length d = 0 then (None, s)
             else
               let payload = unwrapBase64Payload rt d in
               if length (base64 payload) = 0 then (None, s)
               else
                 let declared = js_or (normalizeImageMimeType rt (in_mimeType input)) (hintedMime payload);
                     detected = detectImageMimeTypeFromBase64Strict rt (base64 payload);
                     (mimeType, s') = resolveImageMimeType declared detected options s
                 in (Some \<lparr>out_type = js ''image'', out_data = base64 payload, out_mimeType = mimeType\<rparr>, s')
         | _ \<Rightarrow> (None, s)))"

text \<open>An options object whose callback records every mismatch it is told about.\<close>

definition trace_options :: "(MimeMismatch list) NormalizeOptions option" where
  "trace_options = Some \<lparr>onMimeMismatch = Some (\<lambda>ctx s. s @ [ctx])\<rparr>"

text \<open>
  Example payloads: the first twelve bytes of a PNG file in base64, and the same payload
  inside a data URL that names another type.
\<close>

definition png_payload :: jsstring where
  "png_payload = js ''iVBORw0KGgoAAAAN''"

definition gif_data_url :: jsstring where
  "gif_data_url = js ''data:image/gif;base64,iVBORw0KGgoAAAAN''"

definition long_stop_text :: jsstring where
  "long_stop_text = js ''stop stop stop stop stop stop stop stop stop stop stop''"

section \<open>Slash command handler (src/commands.ts)\<close>

type_synonym jid = string
type_synonym folder = string

record NewMessage =
  msg_id :: string
  chat_jid :: jid
  sender :: string
  sender_name :: string
  content :: string
  timestamp :: string
  is_from_me :: bool

text \<open>
  What \<open>executeSessionReset\<close> does to its collaborators, in the order it does it: every call
  of a function of another module that can change or fail, the deletion from the
  session cache and the two log lines. The file system events name the directory by its
  path.
\<close>

datatype event =
    StopGroupCalled jid
  | ReaddirSyncCalled string
  | RmSyncCalled string string
  | LoggerWarn folder string
  | DeleteSessionCalled folder
  | SessionCacheDeleted folder
  | EnsureChatExistsCalled jid
  | StoreMessageDirectCalled NewMessage
  | BroadcastCalled jid NewMessage
  | LoggerInfo jid folder "jid list"

datatype error =
    StopGroupRejected jid
  | ReaddirSyncFailed string
  | RmSyncFailed string string
  | StoreMessageFailed

text \<open>
  What can be seen of the system at one moment: the groups that own a live sandbox, the
  directories of the file system, the session records, the session cache, the stored
  messages and what was broadcast.
\<close>

record observation =
  o_running :: "jid \<Rightarrow> bool"
  o_fs_dir :: "string \<Rightarrow> string list option"
  o_db_sessions :: "folder \<Rightarrow> string option"
  o_session_cache :: "folder \<Rightarrow> string option"
  o_messages :: "NewMessage list"
  o_broadcasts :: "(jid \<times> NewMessage) list"

text \<open>
  The state the handler reads and writes: the registered groups and the sessions, chats
  and messages of the database; the groups of the queue that own a live sandbox; the
  file system, as the entries of the directory at a path (\<open>None\<close> when nothing exists at the
  path); the path that \<open>path.join(DATA_DIR, 'sessions', folder, '.claude')\<close> gives for a
  folder (\<open>path.join\<close> normalises, so two folders can name one directory); the session
  cache \<open>deps.sessions\<close>; what was broadcast. The last two fields are the record of the run:
  the events in the order they happened and, for each event, what could be seen of the
  system at the moment it happened.
\<close>

record world =
  registered :: "(jid \<times> folder) list"
  running :: "jid \<Rightarrow> bool"
  session_dir :: "folder \<Rightarrow> string"
  fs_dir :: "string \<Rightarrow> string list option"
  db_sessions :: "folder \<Rightarrow> string option"
  session_cache :: "folder \<Rightarrow> string option"
  chats :: "jid \<Rightarrow> bool"
  messages :: "NewMessage list"
  broadcasts :: "(jid \<times> NewMessage) list"
  trace :: "event list"
  observed :: "observation list"

text \<open>
  The failures of the collaborators during one call of the handler: whether the kill
  behind a forced stop of a group fails; among several rejected stops, the one whose
  rejection settles first; whether listing a directory fails; whether removing an entry
  of a directory fails; whether the insertion of a message fails.
\<close>

record faults =
  stop_rejects :: "jid \<Rightarrow> bool"
  settles_first :: "error list \<Rightarrow> error"
  readdir_throws :: "string \<Rightarrow> bool"
  rm_throws :: "string \<Rightarrow> string \<Rightarrow> bool"
  store_throws :: bool

definition observe :: "world \<Rightarrow> observation" where
  "observe w =
     \<lparr>o_running = running w, o_fs_dir = fs_dir w, o_db_sessions = db_sessions w,
      o_session_cache = session_cache w, o_messages = messages w,
      o_broadcasts = broadcasts w\<rparr>"

text \<open>An event happens: it is recorded together with the system as it is at that moment.\<close>

definition emit :: "event \<Rightarrow> world \<Rightarrow> world" where
  "emit e w = w\<lparr>trace := trace w @ [e], observed := observed w @ [observe w]\<rparr>"

text \<open>
  Modelled from the spec: \<open>getJidsByFolder\<close> of db.ts, which is not among the sources. It is
  \<open>listGroupsByFolder(folder) -> GroupKey[]\<close> of the Session Store: the group keys that
  share the folder.
\<close>

definition getJidsByFolder :: "world \<Rightarrow> folder \<Rightarrow> jid list" where
  "getJidsByFolder w f = map fst (filter (\<lambda>(j, f'). f' = f) (registered w))"

text \<open>
  Modelled from the spec: \<open>deleteSession\<close> of db.ts, which is not among the sources. It is
  \<open>deleteSession(folder)\<close> of the Session Store: the persisted session record of the folder
  is deleted; deleting a record that does not exist changes nothing.
\<close>

definition deleteSession :: "folder \<Rightarrow> world \<Rightarrow> world" where
  "deleteSession f w =
     (emit (DeleteSessionCalled f) w)\<lparr>db_sessions := (db_sessions w)(f := None)\<rparr>"

text \<open>
  Modelled from the spec: \<open>ensureChatExists\<close> of db.ts, which is not among the sources. The
  chat gets a row if it has none; it is part of the insertion of the marker.
\<close>

definition ensureChatExists :: "jid \<Rightarrow> world \<Rightarrow> world" where
  "ensureChatExists c w =
     (emit (EnsureChatExistsCalled c) w)\<lparr>chats := (chats w)(c := True)\<rparr>"

text \<open>
  Modelled from the spec: \<open>storeMessageDirect\<close> of db.ts, which is not among the sources.
  It is \<open>appendMessage(group, message)\<close> of the Session Store: the message is appended to
  the stored messages, or the insertion fails and nothing is stored. It is the one
  operation of the store that the spec lets fail the reset.
\<close>

definition storeMessageDirect :: "faults \<Rightarrow> NewMessage \<Rightarrow> world \<Rightarrow> error option \<times> world" where
  "storeMessageDirect env m w =
     (if store_throws env then (Some StoreMessageFailed, emit (StoreMessageDirectCalled m) w)
      else (None, (emit (StoreMessageDirectCalled m) w)\<lparr>messages := messages w @ [m]\<rparr>))"

text \<open>
  Modelled from the spec: \<open>stopGroup(jid, {force: true})\<close> of the queue, which is not among
  the sources. On a group with no live sandbox it is a no-op that succeeds; otherwise it
  kills the sandbox and releases it, and it rejects only when the kill itself fails, in
  which case the group is left as it was.
\<close>

definition stopGroup :: "faults \<Rightarrow> jid \<Rightarrow> world \<Rightarrow> error option \<times> world" where
  "stopGroup env j w =
     (if \<not> running w j then (None, emit (StopGroupCalled j) w)
      else if stop_rejects env j then (Some (StopGroupRejected j), emit (StopGroupCalled j) w)
      else (None, (emit (StopGroupCalled j) w)\<lparr>running := (running w)(j := False)\<rparr>))"

text \<open>
  Modelled from the spec: \<open>deps.broadcast\<close>, the Broadcast Gateway's fire-and-forget
  \<open>publish\<close>.
\<close>

definition broadcast :: "jid \<Rightarrow> NewMessage \<Rightarrow> world \<Rightarrow> world" where
  "broadcast c m w =
     (emit (BroadcastCalled c m) w)\<lparr>broadcasts := broadcasts w @ [(c, m)]\<rparr>"

text \<open>
  \<open>fs.rmSync(path.join(claudeDir, entry), {recursive: true, force: true})\<close>: the entry
  leaves the directory, or the call throws and the entry stays.
\<close>

definition rmSync :: "faults \<Rightarrow> string \<Rightarrow> string \<Rightarrow> world \<Rightarrow> error option \<times> world" where
  "rmSync env claudeDir entry w =
     (if rm_throws env claudeDir entry
      then (Some (RmSyncFailed claudeDir entry), emit (RmSyncCalled claudeDir entry) w)
      else (None,
            (emit (RmSyncCalled claudeDir entry) w)
              \<lparr>fs_dir := (fs_dir w)
                 (claudeDir := map_option (filter (\<lambda>e. e \<noteq> entry)) (fs_dir w claudeDir))\<rparr>))"

text \<open>
  The loop of \<open>clearSessionFiles\<close> over the entries read at the start. An entry of the
  keep set is passed over; an exception of \<open>rmSync\<close> is caught, logged as a warning, and
  the loop goes on.
\<close>

fun clearSessionFiles_loop ::
  "faults \<Rightarrow> folder \<Rightarrow> string \<Rightarrow> string list \<Rightarrow> world \<Rightarrow> error option \<times> world" where
  "clearSessionFiles_loop env f claudeDir [] w = (None, w)"
| "clearSessionFiles_loop env f claudeDir (entry # entries) w =
     (if entry = ''settings.json'' then clearSessionFiles_loop env f claudeDir entries w
      else
        (case rmSync env claudeDir entry w of
           (Some err, w') \<Rightarrow>
             clearSessionFiles_loop env f claudeDir entries (emit (LoggerWarn f entry) w')
         | (None, w') \<Rightarrow> clearSessionFiles_loop env f claudeDir entries w'))"

text \<open>The events one entry of the loop leaves in the trace.\<close>

definition removal_events :: "faults \<Rightarrow> folder \<Rightarrow> string \<Rightarrow> string \<Rightarrow> event list" where
  "removal_events env f claudeDir entry =
     (if entry = ''settings.json'' then []
      else if rm_throws env claudeDir entry
        then [RmSyncCalled claudeDir entry, LoggerWarn f entry]
      else [RmSyncCalled claudeDir entry])"

text \<open>The events \<open>clearSessionFiles\<close> leaves in the trace.\<close>

definition clearSessionFiles_events :: "faults \<Rightarrow> folder \<Rightarrow> world \<Rightarrow> event list" where
  "clearSessionFiles_events env f w =
     (case fs_dir w (session_dir w f) of
        None \<Rightarrow> []
      | Some entries \<Rightarrow>
          ReaddirSyncCalled (session_dir w f) #
          (if readdir_throws env (session_dir w f) then []
           else concat (map (removal_events env f (session_dir w f)) entries)))"

text \<open>
  \<open>clearSessionFiles\<close>. \<open>fs.existsSync\<close> does not throw. \<open>fs.readdirSync\<close> is called outside
  the \<open>try\<close>: when the path exists but cannot be listed (it is not a directory, or it may
  not be read) the exception leaves the function.
\<close>

definition clearSessionFiles :: "faults \<Rightarrow> folder \<Rightarrow> world \<Rightarrow> error option \<times> world" where
  "clearSessionFiles env f w =
     (let claudeDir = session_dir w f in
      case fs_dir w claudeDir of
        None \<Rightarrow> (None, w)
      | Some entries \<Rightarrow>
          if readdir_throws env claudeDir
          then (Some (ReaddirSyncFailed claudeDir), emit (ReaddirSyncCalled claudeDir) w)
          else clearSessionFiles_loop env f claudeDir entries
                 (emit (ReaddirSyncCalled claudeDir) w))"

text \<open>
  \<open>siblingJids.map((j) => deps.queue.stopGroup(j, {force: true}))\<close> starts the stop of
  every sibling. The result is the list of the rejections, in the order of the siblings,
  and the world after all the stops.
\<close>

fun stopGroup_each :: "faults \<Rightarrow> jid list \<Rightarrow> world \<Rightarrow> error list \<times> world" where
  "stopGroup_each env [] w = ([], w)"
| "stopGroup_each env (j # siblings) w =
     (case stopGroup env j w of
        (r, w') \<Rightarrow>
          (case stopGroup_each env siblings w' of
             (rs, w'') \<Rightarrow> ((case r of None \<Rightarrow> rs | Some err \<Rightarrow> err # rs), w'')))"

text \<open>
  \<open>await Promise.all(...)\<close>: the awaited promise is fulfilled when every stop is fulfilled,
  and rejected with the rejection that settles first when some stop is rejected. Which
  one settles first is up to the scheduling of the stops; it is one of the rejections.
\<close>

definition Promise_all_stopGroup :: "faults \<Rightarrow> jid list \<Rightarrow> world \<Rightarrow> error option \<times> world" where
  "Promise_all_stopGroup env siblings w =
     (case stopGroup_each env siblings w of
        ([], w') \<Rightarrow> (None, w')
      | (r # rs, w') \<Rightarrow>
          (Some (if settles_first env (r # rs) \<in> set (r # rs) then settles_first env (r # rs)
                 else r), w'))"

definition divider_message :: "jid \<Rightarrow> string \<Rightarrow> string \<Rightarrow> NewMessage" where
  "divider_message chatJid dividerMessageId ts =
     \<lparr>msg_id = dividerMessageId, chat_jid = chatJid, sender = ''__system__'',
      sender_name = ''system'', content = ''context_reset'', timestamp = ts,
      is_from_me = True\<rparr>"

text \<open>
  \<open>executeSessionReset\<close>. The fresh UUID and the current time are arguments. The result is
  the error the returned promise is rejected with (\<open>None\<close> when it is fulfilled) and the
  world the call leaves behind.
\<close>

definition executeSessionReset ::
  "faults \<Rightarrow> jid \<Rightarrow> folder \<Rightarrow> string \<Rightarrow> string \<Rightarrow> world \<Rightarrow> error option \<times> world" where
  "executeSessionReset env chatJid f dividerMessageId ts w =
     (let siblingJids = getJidsByFolder w f in
      case Promise_all_stopGroup env siblingJids w of
        (Some err, w1) \<Rightarrow> (Some err, w1)
      | (None, w1) \<Rightarrow>
          (case clearSessionFiles env f w1 of
             (Some err, w2) \<Rightarrow> (Some err, w2)
           | (None, w2) \<Rightarrow>
               let w3 = deleteSession f w2;
                   w4 = (emit (SessionCacheDeleted f) w3)
                          \<lparr>session_cache := (session_cache w3)(f := None)\<rparr>;
                   w5 = ensureChatExists chatJid w4
               in (case storeMessageDirect env (divider_message chatJid dividerMessageId ts) w5 of
                     (Some err, w6) \<Rightarrow> (Some err, w6)
                   | (None, w6) \<Rightarrow>
                       (None,
                        emit (LoggerInfo chatJid f siblingJids)
                          (broadcast chatJid (divider_message chatJid dividerMessageId ts) w6)))))"

text \<open>
  The events and the observations a call added to the record, given the worlds before
  and after it.
\<close>

definition new_events :: "world \<Rightarrow> world \<Rightarrow> event list" where
  "new_events w w' = drop (length (trace w)) (trace w')"

definition new_observations :: "world \<Rightarrow> world \<Rightarrow> observation list" where
  "new_observations w w' = drop (length (observed w)) (observed w')"

text \<open>
  The stage of the reset an event belongs to: stopping the siblings (0), removing the
  session artifacts (1), deleting the session record and the cache entry (2), making sure
  the chat exists (3), inserting the marker message (4), broadcasting it (5), the final
  log line (6).
\<close>

fun reset_stage :: "event \<Rightarrow> nat" where
  "reset_stage (StopGroupCalled _) = 0"
| "reset_stage (ReaddirSyncCalled _) = 1"
| "reset_stage (RmSyncCalled _ _) = 1"
| "reset_stage (LoggerWarn _ _) = 1"
| "reset_stage (DeleteSessionCalled _) = 2"
| "reset_stage (SessionCacheDeleted _) = 2"
| "reset_stage (EnsureChatExistsCalled _) = 3"
| "reset_stage (StoreMessageDirectCalled _) = 4"
| "reset_stage (BroadcastCalled _ _) = 5"
| "reset_stage (LoggerInfo _ _ _) = 6"

text \<open>
  An example: the folder \<open>f\<close> backs the home group \<open>web:g1\<close> and its sibling \<open>tg:g2\<close>; both
  run; the directory of \<open>f\<close> holds two session files, a sub-directory and the settings; the
  folder \<open>o\<close> has no directory.
\<close>

definition example_world :: world where
  "example_world =
     \<lparr>registered = [(''web:g1'', ''f''), (''tg:g2'', ''f''), (''web:other'', ''o'')],
      running = (\<lambda>j. j = ''web:g1'' \<or> j = ''tg:g2''),
      session_dir = (\<lambda>x. ''data/sessions/'' @ x @ ''/.claude''),
      fs_dir = (\<lambda>p. if p = ''data/sessions/f/.claude''
                     then Some [''a.jsonl'', ''settings.json'', ''projects'', ''b.jsonl'']
                     else None),
      db_sessions = (\<lambda>x. if x = ''f'' then Some ''session-1'' else None),
      session_cache = (\<lambda>x. if x = ''f'' then Some ''session-1'' else None),
      chats = (\<lambda>j. False),
      messages = [],
      broadcasts = [],
      trace = [],
      observed = []\<rparr>"

definition no_faults :: faults where
  "no_faults =
     \<lparr>stop_rejects = (\<lambda>j. False), settles_first = hd, readdir_throws = (\<lambda>p. False),
      rm_throws = (\<lambda>p e. False), store_throws = False\<rparr>"

definition sibling_stop_fails :: faults where
  "sibling_stop_fails = no_faults\<lparr>stop_rejects := (\<lambda>j. j = ''tg:g2'')\<rparr>"

definition listing_fails :: faults where
  "listing_fails = no_faults\<lparr>readdir_throws := (\<lambda>p. True)\<rparr>"

definition projects_rm_fails :: faults where
  "projects_rm_fails = no_faults\<lparr>rm_throws := (\<lambda>p e. e = ''projects'')\<rparr>"

definition insertion_fails :: faults where
  "insertion_fails = no_faults\<lparr>store_throws := True\<rparr>"

definition example_after_reset :: world where
  "example_after_reset =
     snd (executeSessionReset no_faults ''web:g1'' ''f'' ''id1'' ''t1'' example_world)"

definition example_after_failed_removal :: world where
  "example_after_failed_removal =
     snd (executeSessionReset projects_rm_fails ''web:g1'' ''f'' ''id1'' ''t1'' example_world)"

section \<open>Daily summary job (src/daily-summary.ts)\<close>

definition CHECK_INTERVAL_MS :: int where
  "CHECK_INTERVAL_MS = 55 * 60 * 1000"

text \<open>
  \<open>runDailySummaryIfNeeded\<close>. Times are milliseconds since the epoch. The arguments are the
  function \<open>getLocalHour\<close> (the hour of a time in the configured time zone, which the
  source reads from \<open>Intl.DateTimeFormat\<close>), the value of \<open>Date.now()\<close> and the module
  variable \<open>lastCheckTime\<close>, which starts at 0. The result tells whether
  \<open>generateSummaries\<close> was called (an exception of it is caught and logged) and gives the
  new value of \<open>lastCheckTime\<close>.
\<close>

definition runDailySummaryIfNeeded :: "(int \<Rightarrow> int) \<Rightarrow> int \<Rightarrow> int \<Rightarrow> bool \<times> int" where
  "runDailySummaryIfNeeded getLocalHour now lastCheckTime =
     (if now - lastCheckTime < CHECK_INTERVAL_MS then (False, lastCheckTime)
      else
        let localHour = getLocalHour now in
        if localHour < 2 \<or> localHour \<ge> 3 then (False, now)
        else (True, now))"

text \<open>
  The scheduler loop calls the job at every tick. \<open>scheduler_ticks\<close> gives the times, among
  the ticks, at which \<open>generateSummaries\<close> was called.
\<close>

fun scheduler_ticks :: "(int \<Rightarrow> int) \<Rightarrow> int list \<Rightarrow> int \<Rightarrow> int list" where
  "scheduler_ticks getLocalHour [] lastCheckTime = []"
| "scheduler_ticks getLocalHour (now # ticks) lastCheckTime =
     (case runDailySummaryIfNeeded getLocalHour now lastCheckTime of
        (True, lastCheckTime') \<Rightarrow> now # scheduler_ticks getLocalHour ticks lastCheckTime'
      | (False, lastCheckTime') \<Rightarrow> scheduler_ticks getLocalHour ticks lastCheckTime')"

text \<open>
  With the time zone UTC: the hour of the day, and the calendar hour (counted from the
  epoch) a time falls into.
\<close>

definition utc_hour :: "int \<Rightarrow> int" where
  "utc_hour now = (now div 3600000) mod 24"

definition calendar_hour :: "int \<Rightarrow> int" where
  "calendar_hour now = now div 3600000"

text \<open>
  The ticks of one hour of the scheduler, which polls every 60 seconds: from
  2026-01-01T02:00:00Z to 02:59:00Z.
\<close>

definition ticks_of_two_am :: "int list" where
  "ticks_of_two_am = map (\<lambda>k. 1767232800000 + 60000 * int k) [0..<60]"

section \<open>Group Execution Queue\<close>

text \<open>
  Modelled from the spec: the Group Execution Queue (group-queue.ts is not among the
  sources; only the type of \<open>stopGroup\<close> and its call in commands.ts are). An entry has a
  state, the count of pending inputs and the handle of the live sandbox it owns, if any;
  a group key with no entry is IDLE.
\<close>

datatype QueueState = IDLE | QUEUED | RUNNING | STOPPING

record QueueEntry =
  q_state :: QueueState
  pendingCount :: nat
  ownerHandle :: "nat option"

text \<open>
  Modelled from the spec: the queue map together with the Sandbox Runner it drives. The
  runner's side is the list of live sandbox handles per group key and the next fresh
  handle.
\<close>

record GroupQueue =
  entries :: "string \<Rightarrow> QueueEntry option"
  live_handles :: "string \<Rightarrow> nat list"
  next_handle :: nat

text \<open>
  Modelled from the spec: after a start of the process every group is IDLE and no entry
  exists.
\<close>

definition empty_queue :: GroupQueue where
  "empty_queue = \<lparr>entries = (\<lambda>k. None), live_handles = (\<lambda>k. []), next_handle = 0\<rparr>"

text \<open>
  Modelled from the spec: what happens to the queue, one entry at a time (the mutations
  of an entry are serialised per group key): the calls of the public API, the dispatch
  of a queued entry with the runner starting a sandbox or failing to, and the runner's
  reports of completion, graceful exit, grace timeout and crash.
\<close>

datatype QueueEvent =
    Enqueue string
  | EnsureStarted string
  | Dispatch string
  | DispatchFailure string
  | Completes string
  | StopGroup string bool
  | GracefulExit string
  | GraceTimeout string
  | SandboxCrash string

text \<open>
  Modelled from the spec: the entry of a group key; a key that is not in the map is
  treated as IDLE.
\<close>

definition entry_of :: "GroupQueue \<Rightarrow> string \<Rightarrow> QueueEntry" where
  "entry_of q k =
     (case entries q k of
        None \<Rightarrow> \<lparr>q_state = IDLE, pendingCount = 0, ownerHandle = None\<rparr>
      | Some e \<Rightarrow> e)"

text \<open>
  Modelled from the spec: an entry is removed from the map when it is IDLE with nothing
  pending and no owner handle.
\<close>

definition set_entry :: "string \<Rightarrow> QueueEntry \<Rightarrow> GroupQueue \<Rightarrow> GroupQueue" where
  "set_entry k e q =
     q\<lparr>entries := (entries q)
          (k := if q_state e = IDLE \<and> pendingCount e = 0 \<and> ownerHandle e = None then None
                else Some e)\<rparr>"

text \<open>
  Modelled from the spec: the sandbox owned by the entry of \<open>k\<close> exits or is killed, and the
  entry gives up its handle and takes the state \<open>st\<close>.
\<close>

definition release_to :: "QueueState \<Rightarrow> string \<Rightarrow> GroupQueue \<Rightarrow> GroupQueue" where
  "release_to st k q =
     set_entry k ((entry_of q k)\<lparr>q_state := st, ownerHandle := None\<rparr>)
       (q\<lparr>live_handles := (live_handles q)
             (k := filter (\<lambda>h. Some h \<noteq> ownerHandle (entry_of q k)) (live_handles q k))\<rparr>)"

text \<open>
  Modelled from the spec: the state machine of section 4.1. A dispatch enters RUNNING
  only from QUEUED and only after checking that the entry owns no handle; it takes a
  fresh handle from the runner and clears the pending count. A completed run goes back
  to QUEUED when inputs are pending and to IDLE otherwise. A forced stop kills at once;
  a graceful stop goes through STOPPING; a stop of a QUEUED entry cancels the dispatch.
\<close>

fun queue_step :: "QueueEvent \<Rightarrow> GroupQueue \<Rightarrow> GroupQueue" where
  "queue_step (Enqueue k) q =
     (let e = entry_of q k in
      if q_state e = IDLE
      then set_entry k (e\<lparr>q_state := QUEUED, pendingCount := pendingCount e + 1\<rparr>) q
      else set_entry k (e\<lparr>pendingCount := pendingCount e + 1\<rparr>) q)"
| "queue_step (EnsureStarted k) q =
     (let e = entry_of q k in
      if q_state e = IDLE then set_entry k (e\<lparr>q_state := QUEUED\<rparr>) q else q)"
| "queue_step (Dispatch k) q =
     (let e = entry_of q k in
      if q_state e = QUEUED \<and> ownerHandle e = None
      then set_entry k \<lparr>q_state = RUNNING, pendingCount = 0, ownerHandle = Some (next_handle q)\<rparr>
             (q\<lparr>live_handles := (live_handles q)(k := next_handle q # live_handles q k),
                next_handle := next_handle q + 1\<rparr>)
      else q)"
| "queue_step (DispatchFailure k) q =
     (let e = entry_of q k in
      if q_state e = QUEUED then set_entry k (e\<lparr>q_state := IDLE\<rparr>) q else q)"
| "queue_step (Completes k) q =
     (let e = entry_of q k in
      if q_state e = RUNNING
      then release_to (if pendingCount e > 0 then QUEUED else IDLE) k q
      else q)"
| "queue_step (StopGroup k force) q =
     (let e = entry_of q k in
      if q_state e = QUEUED then set_entry k (e\<lparr>q_state := IDLE\<rparr>) q
      else if q_state e = RUNNING then (if force then release_to IDLE k q
                                        else set_entry k (e\<lparr>q_state := STOPPING\<rparr>) q)
      else if q_state e = STOPPING \<and> force then release_to IDLE k q
      else q)"
| "queue_step (GracefulExit k) q =
     (if q_state (entry_of q k) = STOPPING then release_to IDLE k q else q)"
| "queue_step (GraceTimeout k) q =
     (if q_state (entry_of q k) = STOPPING then release_to IDLE k q else q)"
| "queue_step (SandboxCrash k) q =
     (let e = entry_of q k in
      if q_state e = RUNNING \<or> q_state e = STOPPING then release_to IDLE k q else q)"

text \<open>
  Modelled from the spec: the queues that can be reached, as the queue after a sequence
  of events from the empty queue of a fresh process.
\<close>

definition queue_after :: "QueueEvent list \<Rightarrow> GroupQueue" where
  "queue_after evs = foldl (\<lambda>q ev. queue_step ev q) empty_queue evs"

text \<open>
  Modelled from the spec: the invariant of the data model. The live sandboxes of a key
  are exactly the handle its entry owns, and an entry owns a handle exactly while it is
  RUNNING or STOPPING.
\<close>

definition queue_invariant :: "GroupQueue \<Rightarrow> bool" where
  "queue_invariant q =
     (\<forall>k. live_handles q k = (case ownerHandle (entry_of q k) of None \<Rightarrow> [] | Some h \<Rightarrow> [h]) \<and>
          (ownerHandle (entry_of q k) = None) =
            (q_state (entry_of q k) = IDLE \<or> q_state (entry_of q k) = QUEUED))"

section \<open>Properties of the image detector\<close>

lemma detectImageMimeTypeStrict_cases:
  "detectImageMimeTypeStrict buffer = Some m \<Longrightarrow> m \<in> set detectable_mime_types"
  by (auto simp: detectImageMimeTypeStrict_def detectable_mime_types_def split: if_splits)

lemma detectable_nonempty: "m \<in> set detectable_mime_types \<Longrightarrow> m \<noteq> []"
  by (auto simp: detectable_mime_types_def js_def)

text \<open>
  C9. A buffer shorter than 12 bytes is never recognised, not even when it starts with a
  complete magic sequence (the three JPEG bytes, the two BMP bytes); and whenever the
  detector answers, the answer is one of the seven known image MIME types.
\<close>

theorem detectImageMimeTypeStrict_short_and_range:
  "(length buffer < 12 \<longrightarrow> detectImageMimeTypeStrict buffer = None) \<and>
   detectImageMimeTypeStrict (0xff # 0xd8 # 0xff # rest_jpeg) =
     (if length rest_jpeg < 9 then None else Some (js ''image/jpeg'')) \<and>
   (length rest_bmp < 10 \<longrightarrow> detectImageMimeTypeStrict (0x42 # 0x4d # rest_bmp) = None) \<and>
   (detectImageMimeTypeStrict buffer = Some m \<longrightarrow> m \<in> set detectable_mime_types)"
  using detectImageMimeTypeStrict_cases [of buffer m]
  by (auto simp: detectImageMimeTypeStrict_def)

theorem detectImageMimeTypeStrict_short_and_range_witness:
  "length [0xff, 0xd8, 0xff :: 8 word] < 12 \<and>
   detectImageMimeTypeStrict [0xff, 0xd8, 0xff] = None \<and>
   detectImageMimeTypeStrict [0x42, 0x4d] = None \<and>
   detectImageMimeTypeStrict [0xff, 0xd8, 0xff, 0xe0, 0, 0x10, 0x4a, 0x46, 0x49, 0x46, 0, 1] =
     Some (js ''image/jpeg'') \<and>
   js ''image/jpeg'' \<in> set detectable_mime_types"
  using detectImageMimeTypeStrict_short_and_range
          [of "[0xff, 0xd8, 0xff]" "[]" "[]" "js ''image/jpeg''"]
        detectImageMimeTypeStrict_short_and_range
          [of "[0xff, 0xd8, 0xff, 0xe0, 0, 0x10, 0x4a, 0x46, 0x49, 0x46, 0, 1]"
              "[0xe0, 0, 0x10, 0x4a, 0x46, 0x49, 0x46, 0, 1]" "[]" "js ''image/jpeg''"]
  by simp

section \<open>Properties of the intent analyzer\<close>

lemma keywords_disjoint: "kw \<in> set CORRECTION_KEYWORDS \<Longrightarrow> kw \<notin> set STOP_KEYWORDS"
  by (auto simp: CORRECTION_KEYWORDS_def STOP_KEYWORDS_def js_def)

text \<open>
  C10. When the trimmed text is empty or longer than 50 code units the intent is
  \<open>continue\<close>, whatever keywords the text contains. Within the limit, a trimmed text whose
  lower-case form equals a stop keyword gives \<open>stop\<close>, and one whose lower-case form equals
  a correction keyword gives \<open>correction\<close>: the exact comparisons decide before any
  substring search. This holds for every lower-casing function of the runtime.
\<close>

theorem analyzeIntent_length_limit_and_exact_match:
  "((length (trim text) = 0 \<or> length (trim text) > 50) \<longrightarrow> analyzeIntent rt text = Continue) \<and>
   (0 < length (trim text) \<and> length (trim text) \<le> 50 \<and>
      toLowerCase rt (trim text) \<in> set STOP_KEYWORDS \<longrightarrow> analyzeIntent rt text = Stop) \<and>
   (0 < length (trim text) \<and> length (trim text) \<le> 50 \<and>
      toLowerCase rt (trim text) \<in> set CORRECTION_KEYWORDS \<longrightarrow>
      analyzeIntent rt text = Correction)"
  using keywords_disjoint [of "toLowerCase rt (trim text)"]
  by (auto simp: analyzeIntent_def Let_def MAX_SHORT_MESSAGE_LENGTH_def list_ex_iff)

lemmas intent_eval =
  ascii_runtime_def ascii_toLowerCase_def trim_def is_js_whitespace_def
  js_def STOP_KEYWORDS_def CORRECTION_KEYWORDS_def long_stop_text_def

lemma intent_examples:
  "length (trim (js ''   '')) = 0"
  "length (trim long_stop_text) = 54"
  "length (trim (js ''  STOP '')) = 4"
  "toLowerCase ascii_runtime (trim (js ''  STOP '')) \<in> set STOP_KEYWORDS"
  "length (trim (js ''Redo'')) = 4"
  "toLowerCase ascii_runtime (trim (js ''Redo'')) \<in> set CORRECTION_KEYWORDS"
  by (simp_all add: intent_eval)

theorem analyzeIntent_length_limit_and_exact_match_witness:
  "analyzeIntent ascii_runtime (js ''   '') = Continue \<and>
   analyzeIntent ascii_runtime long_stop_text = Continue \<and>
   analyzeIntent ascii_runtime (js ''  STOP '') = Stop \<and>
   analyzeIntent ascii_runtime (js ''Redo'') = Correction"
  using analyzeIntent_length_limit_and_exact_match [of "js ''   ''" ascii_runtime]
        analyzeIntent_length_limit_and_exact_match [of long_stop_text ascii_runtime]
        analyzeIntent_length_limit_and_exact_match [of "js ''  STOP ''" ascii_runtime]
        analyzeIntent_length_limit_and_exact_match [of "js ''Redo''" ascii_runtime]
  by (simp add: intent_examples)

section \<open>Properties of the attachment normaliser\<close>

lemma normalizeImageMimeType_nonempty:
  "normalizeImageMimeType rt v = Some m \<Longrightarrow> m \<noteq> []"
  by (auto simp: normalizeImageMimeType_def startsWith_def js_def Let_def
           split: jsval.splits if_splits)

lemma declaredMimeOf_nonempty: "declaredMimeOf rt input d = Some m \<Longrightarrow> m \<noteq> []"
  by (auto simp: declaredMimeOf_def js_or_def unwrapBase64Payload_def truthy_def
           dest: normalizeImageMimeType_nonempty split: if_splits option.splits)

lemma detectedMimeOf_nonempty: "detectedMimeOf rt d = Some m \<Longrightarrow> m \<noteq> []"
  by (auto simp: detectedMimeOf_def detectImageMimeTypeFromBase64Strict_def
           dest!: detectImageMimeTypeStrict_cases detectable_nonempty split: option.splits)

lemma normalizeImageAttachment_accepted:
  assumes "in_type input = JUndefined \<or> in_type input = JNull \<or>
           in_type input = JString (js ''image'')"
    and "in_data input = JString d" and "d \<noteq> []"
    and "base64 (unwrapBase64Payload rt d) \<noteq> []"
  shows "normalizeImageAttachment rt input options s =
     (Some \<lparr>out_type = js ''image'', out_data = base64 (unwrapBase64Payload rt d),
            out_mimeType =
              fst (resolveImageMimeType (declaredMimeOf rt input d) (detectedMimeOf rt d) options s)\<rparr>,
      snd (resolveImageMimeType (declaredMimeOf rt input d) (detectedMimeOf rt d) options s))"
  using assms
  by (auto simp: normalizeImageAttachment_def Let_def declaredMimeOf_def detectedMimeOf_def
           split: prod.splits)

text \<open>
  C8. An input is accepted when its type is absent or \<open>image\<close>, its data is a non-empty
  string and the base64 payload of the data is not empty. For an accepted input, with
  the declared and the detected MIME type as the function computes them: if both exist
  and differ, the result carries the detected type and the \<open>onMimeMismatch\<close> callback (when
  one is given) is run on the two values; if they agree, or only the declared type
  exists, the result carries the declared type; if only the detected type exists, the
  result carries it; if neither exists the result is \<open>image/jpeg\<close>. In the last three cases
  the callback is not run.
\<close>

theorem normalizeImageAttachment_mime_resolution:
  assumes "in_type input = JUndefined \<or> in_type input = JNull \<or>
           in_type input = JString (js ''image'')"
    and "in_data input = JString d" and "d \<noteq> []"
    and "base64 (unwrapBase64Payload rt d) \<noteq> []"
  shows "\<exists>att s'. normalizeImageAttachment rt input options s = (Some att, s') \<and>
     (declaredMimeOf rt input d = Some dc \<and> detectedMimeOf rt d = Some dt \<and> dc \<noteq> dt \<longrightarrow>
        out_mimeType att = dt \<and>
        s' = call_onMimeMismatch options \<lparr>declaredMime = dc, detectedMime = dt\<rparr> s) \<and>
     (declaredMimeOf rt input d = Some dc \<and>
        (detectedMimeOf rt d = Some dc \<or> detectedMimeOf rt d = None) \<longrightarrow>
        out_mimeType att = dc \<and> s' = s) \<and>
     (declaredMimeOf rt input d = None \<and> detectedMimeOf rt d = Some dt \<longrightarrow>
        out_mimeType att = dt \<and> s' = s) \<and>
     (declaredMimeOf rt input d = None \<and> detectedMimeOf rt d = None \<longrightarrow>
        out_mimeType att = js ''image/jpeg'' \<and> s' = s)"
  unfolding normalizeImageAttachment_accepted [OF assms]
  using declaredMimeOf_nonempty [of rt input d dc] detectedMimeOf_nonempty [of rt d dt]
        detectedMimeOf_nonempty [of rt d dc]
  by (auto simp: resolveImageMimeType_def truthy_def)

lemma unwrap_examples: "base64 (unwrapBase64Payload ascii_runtime gif_data_url) = png_payload"
  "hintedMime (unwrapBase64Payload ascii_runtime gif_data_url) = Some (js ''image/gif'')"
  "base64 (unwrapBase64Payload ascii_runtime png_payload) = png_payload"
  "hintedMime (unwrapBase64Payload ascii_runtime png_payload) = None"
  "base64 (unwrapBase64Payload ascii_runtime (js ''AAAA'')) = js ''AAAA''"
  "hintedMime (unwrapBase64Payload ascii_runtime (js  ''AAAA'')) = None"
  by (simp_all add: gif_data_url_def png_payload_def unwrapBase64Payload_def DATA_URL_BASE64_RE_exec_def matches_ignoreCase_def regex_upper_def normalizeImageMimeType_def  trim_def startsWith_def is_js_whitespace_def
  ascii_runtime_def ascii_toLowerCase_def js_def)

lemma detect_examples: "detectImageMimeTypeFromBase64Strict ascii_runtime png_payload = Some (js ''image/png'')"
  "detectImageMimeTypeFromBase64Strict ascii_runtime (js ''AAAA'') = None"
  by (simp_all add: png_payload_def detectImageMimeTypeFromBase64Strict_def detectImageMimeTypeStrict_def ascii_runtime_def base64_decode_def base64_value_def js_def)

lemma normalize_mime_examples: "normalizeImageMimeType ascii_runtime JUndefined = None"
  "normalizeImageMimeType ascii_runtime JOther = None"
  "normalizeImageMimeType ascii_runtime (JString (js '' Image/PNG '')) = Some (js ''image/png'')"
  "normalizeImageMimeType ascii_runtime (JString (js ''image/webp'')) = Some (js ''image/webp'')"
  "normalizeImageMimeType ascii_runtime (JString (js ''text/plain'')) = None"
  by (simp_all add: normalizeImageMimeType_def  trim_def startsWith_def is_js_whitespace_def
  ascii_runtime_def ascii_toLowerCase_def js_def)

lemma literal_examples: "js ''image/gif'' \<noteq> js ''image/png''" "js ''image/gif'' \<noteq> []" "js ''image/png'' \<noteq> []" "js ''image/webp'' \<noteq> []"
  "png_payload \<noteq> []" "gif_data_url \<noteq> []" "js ''AAAA'' \<noteq> []"
  by (simp_all add: js_def png_payload_def gif_data_url_def)

lemmas attachment_examples =
  unwrap_examples detect_examples normalize_mime_examples literal_examples declaredMimeOf_def detectedMimeOf_def js_or_def truthy_def
   call_onMimeMismatch_def trace_options_def 

theorem normalizeImageAttachment_mime_resolution_witness:
  "(\<exists>att. normalizeImageAttachment ascii_runtime
      \<lparr>in_type = JUndefined, in_data = JString gif_data_url, in_mimeType = JUndefined\<rparr>
      trace_options [] =
      (Some att, [\<lparr>declaredMime = js ''image/gif'', detectedMime = js ''image/png''\<rparr>]) \<and>
      out_mimeType att = js ''image/png'') \<and>
   (\<exists>att. normalizeImageAttachment ascii_runtime
      \<lparr>in_type = JString (js ''image''), in_data = JString png_payload,
       in_mimeType = JString (js '' Image/PNG '')\<rparr> trace_options [] = (Some att, []) \<and>
      out_mimeType att = js ''image/png'') \<and>
   (\<exists>att. normalizeImageAttachment ascii_runtime
      \<lparr>in_type = JString (js ''image''), in_data = JString (js ''AAAA''),
       in_mimeType = JString (js ''image/webp'')\<rparr> trace_options [] = (Some att, []) \<and>
      out_mimeType att = js ''image/webp'') \<and>
   (\<exists>att. normalizeImageAttachment ascii_runtime
      \<lparr>in_type = JNull, in_data = JString png_payload, in_mimeType = JOther\<rparr>
      trace_options [] = (Some att, []) \<and>
      out_mimeType att = js ''image/png'') \<and>
   (\<exists>att. normalizeImageAttachment ascii_runtime
      \<lparr>in_type = JNull, in_data = JString (js ''AAAA''),
       in_mimeType = JString (js ''text/plain'')\<rparr> trace_options [] = (Some att, []) \<and>
      out_mimeType att = js ''image/jpeg'')"
  using normalizeImageAttachment_mime_resolution
          [of "\<lparr>in_type = JUndefined, in_data = JString gif_data_url, in_mimeType = JUndefined\<rparr>"
              gif_data_url ascii_runtime trace_options "[]" "js ''image/gif''" "js ''image/png''"]
        normalizeImageAttachment_mime_resolution
          [of "\<lparr>in_type = JString (js ''image''), in_data = JString png_payload,
                in_mimeType = JString (js '' Image/PNG '')\<rparr>"
              png_payload ascii_runtime trace_options "[]" "js ''image/png''" "js ''image/png''"]
        normalizeImageAttachment_mime_resolution
          [of "\<lparr>in_type = JString (js ''image''), in_data = JString (js ''AAAA''),
                in_mimeType = JString (js ''image/webp'')\<rparr>"
              "js ''AAAA''" ascii_runtime trace_options "[]" "js ''image/webp''" "js ''image/png''"]
        normalizeImageAttachment_mime_resolution
          [of "\<lparr>in_type = JNull, in_data = JString png_payload, in_mimeType = JOther\<rparr>"
              png_payload ascii_runtime trace_options "[]" "js ''image/gif''" "js ''image/png''"]
        normalizeImageAttachment_mime_resolution
          [of "\<lparr>in_type = JNull, in_data = JString (js ''AAAA''),
                in_mimeType = JString (js ''text/plain'')\<rparr>"
              "js ''AAAA''" ascii_runtime trace_options "[]" "js ''image/gif''" "js ''image/png''"]
  by (auto simp add: attachment_examples)
section \<open>Properties of the session reset\<close>

lemma stopGroup_eq:
  "stopGroup env j w =
     (if running w j \<and> stop_rejects env j then Some (StopGroupRejected j) else None,
      w\<lparr>running := (\<lambda>x. running w x \<and> (x = j \<longrightarrow> stop_rejects env j)),
        trace := trace w @ [StopGroupCalled j],
        observed := observed w @ [observe w]\<rparr>)"
  by (auto simp: stopGroup_def emit_def fun_eq_iff intro!: world.equality)

lemma observe_frame [simp]:
  "o_running (observe w) = running w" "o_fs_dir (observe w) = fs_dir w"
  "o_db_sessions (observe w) = db_sessions w" "o_session_cache (observe w) = session_cache w"
  "o_messages (observe w) = messages w" "o_broadcasts (observe w) = broadcasts w"
  by (simp_all add: observe_def)

lemma stopGroup_each_eq:
  "\<exists>obs. stopGroup_each env sibs w =
       (map StopGroupRejected (filter (\<lambda>j. running w j \<and> stop_rejects env j) sibs),
        w\<lparr>running := (\<lambda>x. running w x \<and> (x \<in> set sibs \<longrightarrow> stop_rejects env x)),
          trace := trace w @ map StopGroupCalled sibs,
          observed := observed w @ obs\<rparr>) \<and>
     length obs = length sibs \<and>
     (\<forall>ob \<in> set obs. o_fs_dir ob = fs_dir w \<and> o_db_sessions ob = db_sessions w \<and>
        o_session_cache ob = session_cache w \<and> o_messages ob = messages w \<and>
        o_broadcasts ob = broadcasts w)"
proof (induction sibs arbitrary: w)
  case Nil
  show ?case by (intro exI [of _ "[]"]) simp
next
  case (Cons j sibs)
  let ?w' = "w\<lparr>running := (\<lambda>x. running w x \<and> (x = j \<longrightarrow> stop_rejects env j)),
        trace := trace w @ [StopGroupCalled j],
        observed := observed w @ [observe w]\<rparr>"
  from Cons.IH [of ?w'] obtain obs where
    eq: "stopGroup_each env sibs ?w' =
       (map StopGroupRejected (filter (\<lambda>j. running ?w' j \<and> stop_rejects env j) sibs),
        ?w'\<lparr>running := (\<lambda>x. running ?w' x \<and> (x \<in> set sibs \<longrightarrow> stop_rejects env x)),
          trace := trace ?w' @ map StopGroupCalled sibs,
          observed := observed ?w' @ obs\<rparr>)"
    and len: "length obs = length sibs"
    and fr: "\<forall>ob \<in> set obs. o_fs_dir ob = fs_dir ?w' \<and> o_db_sessions ob = db_sessions ?w' \<and>
        o_session_cache ob = session_cache ?w' \<and> o_messages ob = messages ?w' \<and>
        o_broadcasts ob = broadcasts ?w'"
    by blast
  have flt: "filter (\<lambda>x. running ?w' x \<and> stop_rejects env x) sibs =
             filter (\<lambda>x. running w x \<and> stop_rejects env x) sibs"
    by (rule filter_cong) auto
  have run: "(\<lambda>x. running ?w' x \<and> (x \<in> set sibs \<longrightarrow> stop_rejects env x)) =
             (\<lambda>x. running w x \<and> (x \<in> set (j # sibs) \<longrightarrow> stop_rejects env x))"
    by (intro ext) auto
  show ?case
  proof (intro exI [of _ "observe w # obs"] conjI)
    show "stopGroup_each env (j # sibs) w =
       (map StopGroupRejected (filter (\<lambda>j. running w j \<and> stop_rejects env j) (j # sibs)),
        w\<lparr>running := (\<lambda>x. running w x \<and> (x \<in> set (j # sibs) \<longrightarrow> stop_rejects env x)),
          trace := trace w @ map StopGroupCalled (j # sibs),
          observed := observed w @ observe w # obs\<rparr>)"
      using eq unfolding flt run by (simp add: stopGroup_eq)
    show "length (observe w # obs) = length (j # sibs)" using len by simp
    show "\<forall>ob \<in> set (observe w # obs). o_fs_dir ob = fs_dir w \<and> o_db_sessions ob = db_sessions w \<and>
        o_session_cache ob = session_cache w \<and> o_messages ob = messages w \<and>
        o_broadcasts ob = broadcasts w"
      using fr by simp
  qed
qed

lemma Promise_all_stopGroup_eq:
  "\<exists>obs r. Promise_all_stopGroup env sibs w =
       (r,
        w\<lparr>running := (\<lambda>x. running w x \<and> (x \<in> set sibs \<longrightarrow> stop_rejects env x)),
          trace := trace w @ map StopGroupCalled sibs,
          observed := observed w @ obs\<rparr>) \<and>
     (r = None) = (\<not> (\<exists>j \<in> set sibs. running w j \<and> stop_rejects env j)) \<and>
     length obs = length sibs \<and>
     (\<forall>ob \<in> set obs. o_fs_dir ob = fs_dir w \<and> o_db_sessions ob = db_sessions w \<and>
        o_session_cache ob = session_cache w \<and> o_messages ob = messages w \<and>
        o_broadcasts ob = broadcasts w)"
proof -
  from stopGroup_each_eq [of env sibs w] obtain obs where
    eq: "stopGroup_each env sibs w =
       (map StopGroupRejected (filter (\<lambda>j. running w j \<and> stop_rejects env j) sibs),
        w\<lparr>running := (\<lambda>x. running w x \<and> (x \<in> set sibs \<longrightarrow> stop_rejects env x)),
          trace := trace w @ map StopGroupCalled sibs,
          observed := observed w @ obs\<rparr>)"
    and rest: "length obs = length sibs"
      "\<forall>ob \<in> set obs. o_fs_dir ob = fs_dir w \<and> o_db_sessions ob = db_sessions w \<and>
        o_session_cache ob = session_cache w \<and> o_messages ob = messages w \<and>
        o_broadcasts ob = broadcasts w"
    by blast
  show ?thesis
  proof (cases "filter (\<lambda>j. running w j \<and> stop_rejects env j) sibs")
    case Nil
    then have none: "\<not> (\<exists>j \<in> set sibs. running w j \<and> stop_rejects env j)"
      by (auto simp: filter_empty_conv)
    show ?thesis
      using rest none
      by (intro exI [of _ obs] exI [of _ None]) (simp add: Promise_all_stopGroup_def eq Nil)
  next
    case (Cons j js)
    then have "j \<in> set (filter (\<lambda>j. running w j \<and> stop_rejects env j) sibs)" by simp
    then have some: "\<exists>j \<in> set sibs. running w j \<and> stop_rejects env j" by auto
    let ?errs = "StopGroupRejected j # map StopGroupRejected js"
    show ?thesis
      using rest some
      by (intro exI [of _ obs]
            exI [of _ "Some (if settles_first env ?errs \<in> set ?errs then settles_first env ?errs
                             else StopGroupRejected j)"])
         (simp add: Promise_all_stopGroup_def eq Cons)
  qed
qed

lemma map_option_filter_twice:
  "map_option (filter P) (map_option (filter Q) x) = map_option (filter (\<lambda>e. Q e \<and> P e)) x"
  by (cases x) (simp_all add: conj_commute)

lemma rmSync_eq:
  "rmSync env d entry w =
     (if rm_throws env d entry
      then (Some (RmSyncFailed d entry),
            w\<lparr>trace := trace w @ [RmSyncCalled d entry], observed := observed w @ [observe w]\<rparr>)
      else (None,
            w\<lparr>fs_dir := (fs_dir w)(d := map_option (filter (\<lambda>e. e \<noteq> entry)) (fs_dir w d)),
              trace := trace w @ [RmSyncCalled d entry],
              observed := observed w @ [observe w]\<rparr>))"
  by (simp add: rmSync_def emit_def)

lemma removal_events_simps:
  "removal_events env f d ''settings.json'' = []"
  "entry \<noteq> ''settings.json'' \<Longrightarrow> rm_throws env d entry \<Longrightarrow>
     removal_events env f d entry = [RmSyncCalled d entry, LoggerWarn f entry]"
  "entry \<noteq> ''settings.json'' \<Longrightarrow> \<not> rm_throws env d entry \<Longrightarrow>
     removal_events env f d entry = [RmSyncCalled d entry]"
  by (simp_all add: removal_events_def)

lemma clearSessionFiles_loop_eq:
  "\<exists>obs. clearSessionFiles_loop env f d es w =
       (None,
        w\<lparr>fs_dir := (fs_dir w)
            (d := map_option
                    (filter (\<lambda>e. \<not> (e \<in> set es \<and> e \<noteq> ''settings.json'' \<and> \<not> rm_throws env d e)))
                    (fs_dir w d)),
          trace := trace w @ concat (map (removal_events env f d) es),
          observed := observed w @ obs\<rparr>) \<and>
     length obs = length (concat (map (removal_events env f d) es)) \<and>
     (\<forall>ob \<in> set obs. o_running ob = running w \<and> o_db_sessions ob = db_sessions w \<and>
        o_session_cache ob = session_cache w \<and> o_messages ob = messages w \<and>
        o_broadcasts ob = broadcasts w)"
proof (induction es arbitrary: w)
  case Nil
  show ?case
    by (intro exI [of _ "[]"] conjI, simp, rule world.equality)
       (auto simp: option.map_ident fun_eq_iff)
next
  case (Cons entry es)
  let ?P = "\<lambda>es e. \<not> (e \<in> set es \<and> e \<noteq> ''settings.json'' \<and> \<not> rm_throws env d e)"
  show ?case
  proof (cases "entry = ''settings.json''")
    case True
    then have "?P (entry # es) = ?P es" by (intro ext) auto
    then have P: "\<And>x. map_option (filter (?P (entry # es))) x = map_option (filter (?P es)) x"
      by simp
    from Cons.IH [of w] obtain obs where
      "clearSessionFiles_loop env f d es w =
       (None, w\<lparr>fs_dir := (fs_dir w)(d := map_option (filter (?P es)) (fs_dir w d)),
          trace := trace w @ concat (map (removal_events env f d) es),
          observed := observed w @ obs\<rparr>)"
      "length obs = length (concat (map (removal_events env f d) es))"
      "\<forall>ob \<in> set obs. o_running ob = running w \<and> o_db_sessions ob = db_sessions w \<and>
        o_session_cache ob = session_cache w \<and> o_messages ob = messages w \<and>
        o_broadcasts ob = broadcasts w"
      by blast
    with True show ?thesis
      unfolding P
      by (intro exI [of _ obs])
         (simp add: removal_events_simps; (intro world.equality)?; (auto simp: fun_eq_iff)?)
  next
    case False
    show ?thesis
    proof (cases "rm_throws env d entry")
      case True
      then have "?P (entry # es) = ?P es" by (intro ext) auto
      then have P: "\<And>x. map_option (filter (?P (entry # es))) x = map_option (filter (?P es)) x"
        by simp
      let ?w' = "w\<lparr>trace := trace w @ [RmSyncCalled d entry, LoggerWarn f entry],
                   observed := observed w @ [observe w, observe w]\<rparr>"
      from Cons.IH [of ?w'] obtain obs where
        eq: "clearSessionFiles_loop env f d es ?w' =
         (None, ?w'\<lparr>fs_dir := (fs_dir ?w')(d := map_option (filter (?P es)) (fs_dir ?w' d)),
            trace := trace ?w' @ concat (map (removal_events env f d) es),
            observed := observed ?w' @ obs\<rparr>)"
        and len: "length obs = length (concat (map (removal_events env f d) es))"
        and fr: "\<forall>ob \<in> set obs. o_running ob = running ?w' \<and> o_db_sessions ob = db_sessions ?w' \<and>
          o_session_cache ob = session_cache ?w' \<and> o_messages ob = messages ?w' \<and>
          o_broadcasts ob = broadcasts ?w'"
        by blast
      have w': "emit (LoggerWarn f entry)
                  (w\<lparr>trace := trace w @ [RmSyncCalled d entry],
                     observed := observed w @ [observe w]\<rparr>) = ?w'"
        by (simp add: emit_def observe_def)
      from False True eq len fr show ?thesis
        unfolding P
        by (intro exI [of _ "observe w # observe w # obs"])
           (simp add: rmSync_eq removal_events_simps w'; (intro world.equality)?;
            (auto simp: fun_eq_iff)?)
    next
      case nothrow: False
      with False have "?P (entry # es) = (\<lambda>e. e \<noteq> entry \<and> ?P es e)"
        by (intro ext) auto
      then have P: "\<And>x. map_option (filter (?P (entry # es))) x =
                        map_option (filter (\<lambda>e. e \<noteq> entry \<and> ?P es e)) x"
        by simp
      let ?w' = "w\<lparr>fs_dir := (fs_dir w)(d := map_option (filter (\<lambda>e. e \<noteq> entry)) (fs_dir w d)),
                   trace := trace w @ [RmSyncCalled d entry],
                   observed := observed w @ [observe w]\<rparr>"
      from Cons.IH [of ?w'] obtain obs where
        eq: "clearSessionFiles_loop env f d es ?w' =
         (None, ?w'\<lparr>fs_dir := (fs_dir ?w')(d := map_option (filter (?P es)) (fs_dir ?w' d)),
            trace := trace ?w' @ concat (map (removal_events env f d) es),
            observed := observed ?w' @ obs\<rparr>)"
        and len: "length obs = length (concat (map (removal_events env f d) es))"
        and fr: "\<forall>ob \<in> set obs. o_running ob = running ?w' \<and> o_db_sessions ob = db_sessions ?w' \<and>
          o_session_cache ob = session_cache ?w' \<and> o_messages ob = messages ?w' \<and>
          o_broadcasts ob = broadcasts ?w'"
        by blast
      from False nothrow eq len fr show ?thesis
        unfolding P
        by (intro exI [of _ "observe w # obs"])
           (simp add: rmSync_eq removal_events_simps map_option_filter_twice;
            (intro world.equality)?; (auto simp: fun_eq_iff map_option_filter_twice)?)
    qed
  qed
qed

lemma clearSessionFiles_eq:
  "\<exists>obs. clearSessionFiles env f w =
       (if fs_dir w (session_dir w f) \<noteq> None \<and> readdir_throws env (session_dir w f)
        then Some (ReaddirSyncFailed (session_dir w f)) else None,
        w\<lparr>fs_dir := (fs_dir w)
            (session_dir w f :=
               if readdir_throws env (session_dir w f) then fs_dir w (session_dir w f)
               else map_option
                      (filter (\<lambda>e. e = ''settings.json'' \<or> rm_throws env (session_dir w f) e))
                      (fs_dir w (session_dir w f))),
          trace := trace w @ clearSessionFiles_events env f w,
          observed := observed w @ obs\<rparr>) \<and>
     length obs = length (clearSessionFiles_events env f w) \<and>
     (\<forall>ob \<in> set obs. o_running ob = running w \<and> o_db_sessions ob = db_sessions w \<and>
        o_session_cache ob = session_cache w \<and> o_messages ob = messages w \<and>
        o_broadcasts ob = broadcasts w)"
proof (cases "fs_dir w (session_dir w f)")
  case None
  then show ?thesis
    by (intro exI [of _ "[]"])
       (simp add: clearSessionFiles_def Let_def clearSessionFiles_events_def;
        (intro world.equality)?; (auto simp: fun_eq_iff)?)
next
  case (Some es)
  let ?d = "session_dir w f"
  show ?thesis
  proof (cases "readdir_throws env ?d")
    case True
    with Some show ?thesis
      by (intro exI [of _ "[observe w]"])
         (simp add: clearSessionFiles_def Let_def clearSessionFiles_events_def emit_def;
          (intro world.equality)?; (auto simp: fun_eq_iff)?)
  next
    case False
    let ?w' = "w\<lparr>trace := trace w @ [ReaddirSyncCalled ?d],
                 observed := observed w @ [observe w]\<rparr>"
    let ?P = "\<lambda>e. \<not> (e \<in> set es \<and> e \<noteq> ''settings.json'' \<and> \<not> rm_throws env ?d e)"
    from clearSessionFiles_loop_eq [of env f ?d es ?w'] obtain obs where
      eq: "clearSessionFiles_loop env f ?d es ?w' =
         (None, ?w'\<lparr>fs_dir := (fs_dir ?w')(?d := map_option (filter ?P) (fs_dir ?w' ?d)),
            trace := trace ?w' @ concat (map (removal_events env f ?d) es),
            observed := observed ?w' @ obs\<rparr>)"
      and len: "length obs = length (concat (map (removal_events env f ?d) es))"
      and fr: "\<forall>ob \<in> set obs. o_running ob = running ?w' \<and> o_db_sessions ob = db_sessions ?w' \<and>
          o_session_cache ob = session_cache ?w' \<and> o_messages ob = messages ?w' \<and>
          o_broadcasts ob = broadcasts ?w'"
      by blast
    have flt: "filter ?P es = filter (\<lambda>e. e = ''settings.json'' \<or> rm_throws env ?d e) es"
      by (rule filter_cong) auto
    have w': "emit (ReaddirSyncCalled ?d) w = ?w'"
      by (simp add: emit_def)
    from Some False eq len fr flt show ?thesis
      by (intro exI [of _ "observe w # obs"])
         (simp add: clearSessionFiles_def Let_def clearSessionFiles_events_def w')
  qed
qed

lemma clearSessionFiles_events_frame:
  "clearSessionFiles_events env f (w\<lparr>running := r, trace := t, observed := ob\<rparr>) =
   clearSessionFiles_events env f w"
  by (simp add: clearSessionFiles_events_def split: option.splits)

lemma getJidsByFolder_frame:
  "getJidsByFolder (w\<lparr>running := r, trace := t, observed := ob\<rparr>) f = getJidsByFolder w f"
  by (simp add: getJidsByFolder_def)

lemma executeSessionReset_stop_rejected:
  assumes "\<exists>j \<in> set (getJidsByFolder w f). running w j \<and> stop_rejects env j"
  shows "\<exists>obs err. executeSessionReset env c f mid ts w =
       (Some err,
        w\<lparr>running := (\<lambda>x. running w x \<and> (x \<in> set (getJidsByFolder w f) \<longrightarrow> stop_rejects env x)),
          trace := trace w @ map StopGroupCalled (getJidsByFolder w f),
          observed := observed w @ obs\<rparr>) \<and>
     length obs = length (getJidsByFolder w f) \<and>
     (\<forall>ob \<in> set obs. o_fs_dir ob = fs_dir w \<and> o_db_sessions ob = db_sessions w \<and>
        o_session_cache ob = session_cache w \<and> o_messages ob = messages w \<and>
        o_broadcasts ob = broadcasts w)"
proof -
  let ?sibs = "getJidsByFolder w f"
  from Promise_all_stopGroup_eq [of env ?sibs w] obtain obs r where
    eq: "Promise_all_stopGroup env ?sibs w =
       (r, w\<lparr>running := (\<lambda>x. running w x \<and> (x \<in> set ?sibs \<longrightarrow> stop_rejects env x)),
          trace := trace w @ map StopGroupCalled ?sibs,
          observed := observed w @ obs\<rparr>)"
    and r: "(r = None) = (\<not> (\<exists>j \<in> set ?sibs. running w j \<and> stop_rejects env j))"
    and rest: "length obs = length ?sibs"
      "\<forall>ob \<in> set obs. o_fs_dir ob = fs_dir w \<and> o_db_sessions ob = db_sessions w \<and>
        o_session_cache ob = session_cache w \<and> o_messages ob = messages w \<and>
        o_broadcasts ob = broadcasts w"
    by blast
  from r assms obtain err where err: "r = Some err" by auto
  show ?thesis
    using rest
    by (intro exI [of _ obs] exI [of _ err]) (simp add: executeSessionReset_def Let_def eq err)
qed

lemma executeSessionReset_listing_failed:
  assumes "\<not> (\<exists>j \<in> set (getJidsByFolder w f). running w j \<and> stop_rejects env j)"
    and "fs_dir w (session_dir w f) \<noteq> None" and "readdir_throws env (session_dir w f)"
  shows "\<exists>obs. executeSessionReset env c f mid ts w =
       (Some (ReaddirSyncFailed (session_dir w f)),
        w\<lparr>running := (\<lambda>x. running w x \<and> x \<notin> set (getJidsByFolder w f)),
          trace := trace w @ map StopGroupCalled (getJidsByFolder w f) @
                   [ReaddirSyncCalled (session_dir w f)],
          observed := observed w @ obs @
            [\<lparr>o_running = (\<lambda>x. running w x \<and> x \<notin> set (getJidsByFolder w f)),
              o_fs_dir = fs_dir w, o_db_sessions = db_sessions w,
              o_session_cache = session_cache w, o_messages = messages w,
              o_broadcasts = broadcasts w\<rparr>]\<rparr>) \<and>
     length obs = length (getJidsByFolder w f) \<and>
     (\<forall>ob \<in> set obs. o_fs_dir ob = fs_dir w \<and> o_db_sessions ob = db_sessions w \<and>
        o_session_cache ob = session_cache w \<and> o_messages ob = messages w \<and>
        o_broadcasts ob = broadcasts w)"
proof -
  let ?sibs = "getJidsByFolder w f"
  from Promise_all_stopGroup_eq [of env ?sibs w] obtain obs r where
    eq0: "Promise_all_stopGroup env ?sibs w =
       (r, w\<lparr>running := (\<lambda>x. running w x \<and> (x \<in> set ?sibs \<longrightarrow> stop_rejects env x)),
          trace := trace w @ map StopGroupCalled ?sibs,
          observed := observed w @ obs\<rparr>)"
    and r: "(r = None) = (\<not> (\<exists>j \<in> set ?sibs. running w j \<and> stop_rejects env j))"
    and rest: "length obs = length ?sibs"
      "\<forall>ob \<in> set obs. o_fs_dir ob = fs_dir w \<and> o_db_sessions ob = db_sessions w \<and>
        o_session_cache ob = session_cache w \<and> o_messages ob = messages w \<and>
        o_broadcasts ob = broadcasts w"
    by blast
  from r assms(1) have none: "r = None" by simp
  have run: "(\<lambda>x. running w x \<and> (x \<in> set ?sibs \<longrightarrow> stop_rejects env x)) =
             (\<lambda>x. running w x \<and> x \<notin> set ?sibs)"
    using assms(1) by (intro ext) auto
  have eq: "Promise_all_stopGroup env ?sibs w =
       (None, w\<lparr>running := (\<lambda>x. running w x \<and> x \<notin> set ?sibs),
          trace := trace w @ map StopGroupCalled ?sibs,
          observed := observed w @ obs\<rparr>)"
    using eq0 none by (simp add: run)
  from assms(2) obtain es where es: "fs_dir w (session_dir w f) = Some es" by auto
  show ?thesis
    apply (rule exI [of _ obs])
    using rest assms(3) es
    apply (simp add: executeSessionReset_def Let_def eq clearSessionFiles_def emit_def
          observe_def)
    done
qed

lemma executeSessionReset_proceeds:
  assumes stops: "\<not> (\<exists>j \<in> set (getJidsByFolder w f). running w j \<and> stop_rejects env j)"
    and listing: "\<not> (fs_dir w (session_dir w f) \<noteq> None \<and> readdir_throws env (session_dir w f))"
  shows "\<exists>obs1 obs2. executeSessionReset env c f mid ts w =
     (if store_throws env then Some StoreMessageFailed else None,
      w\<lparr>running := (\<lambda>x. running w x \<and> x \<notin> set (getJidsByFolder w f)),
        fs_dir := (fs_dir w)
          (session_dir w f :=
             map_option (filter (\<lambda>e. e = ''settings.json'' \<or> rm_throws env (session_dir w f) e))
               (fs_dir w (session_dir w f))),
        db_sessions := (db_sessions w)(f := None),
        session_cache := (session_cache w)(f := None),
        chats := (chats w)(c := True),
        messages := (if store_throws env then messages w
                     else messages w @ [divider_message c mid ts]),
        broadcasts := (if store_throws env then broadcasts w
                       else broadcasts w @ [(c, divider_message c mid ts)]),
        trace := trace w @ map StopGroupCalled (getJidsByFolder w f) @
                 clearSessionFiles_events env f w @
                 [DeleteSessionCalled f, SessionCacheDeleted f, EnsureChatExistsCalled c,
                  StoreMessageDirectCalled (divider_message c mid ts)] @
                 (if store_throws env then []
                  else [BroadcastCalled c (divider_message c mid ts),
                        LoggerInfo c f (getJidsByFolder w f)]),
        observed := observed w @ obs1 @ obs2 @
          map (\<lambda>(db, cache, msgs).
                 \<lparr>o_running = (\<lambda>x. running w x \<and> x \<notin> set (getJidsByFolder w f)),
                  o_fs_dir = (fs_dir w)
                    (session_dir w f :=
                       map_option
                         (filter (\<lambda>e. e = ''settings.json'' \<or> rm_throws env (session_dir w f) e))
                         (fs_dir w (session_dir w f))),
                  o_db_sessions = db, o_session_cache = cache, o_messages = msgs,
                  o_broadcasts = broadcasts w\<rparr>)
            ([(db_sessions w, session_cache w, messages w),
              ((db_sessions w)(f := None), session_cache w, messages w),
              ((db_sessions w)(f := None), (session_cache w)(f := None), messages w),
              ((db_sessions w)(f := None), (session_cache w)(f := None), messages w)] @
             (if store_throws env then []
              else [((db_sessions w)(f := None), (session_cache w)(f := None),
                     messages w @ [divider_message c mid ts])])) @
          (if store_throws env then []
           else [\<lparr>o_running = (\<lambda>x. running w x \<and> x \<notin> set (getJidsByFolder w f)),
                  o_fs_dir = (fs_dir w)
                    (session_dir w f :=
                       map_option
                         (filter (\<lambda>e. e = ''settings.json'' \<or> rm_throws env (session_dir w f) e))
                         (fs_dir w (session_dir w f))),
                  o_db_sessions = (db_sessions w)(f := None),
                  o_session_cache = (session_cache w)(f := None),
                  o_messages = messages w @ [divider_message c mid ts],
                  o_broadcasts = broadcasts w @ [(c, divider_message c mid ts)]\<rparr>])\<rparr>) \<and>
     length obs1 = length (getJidsByFolder w f) \<and>
     (\<forall>ob \<in> set obs1. o_fs_dir ob = fs_dir w \<and> o_db_sessions ob = db_sessions w \<and>
        o_session_cache ob = session_cache w \<and> o_messages ob = messages w \<and>
        o_broadcasts ob = broadcasts w) \<and>
     length obs2 = length (clearSessionFiles_events env f w) \<and>
     (\<forall>ob \<in> set obs2. o_running ob = (\<lambda>x. running w x \<and> x \<notin> set (getJidsByFolder w f)) \<and>
        o_db_sessions ob = db_sessions w \<and> o_session_cache ob = session_cache w \<and>
        o_messages ob = messages w \<and> o_broadcasts ob = broadcasts w)"
proof -
  let ?sibs = "getJidsByFolder w f"
  let ?R = "\<lambda>x. running w x \<and> (x \<in> set ?sibs \<longrightarrow> stop_rejects env x)"
  let ?w1 = "\<lambda>obs. w\<lparr>running := (\<lambda>x. running w x \<and> x \<notin> set ?sibs),
          trace := trace w @ map StopGroupCalled ?sibs,
          observed := observed w @ obs\<rparr>"
  from Promise_all_stopGroup_eq [of env ?sibs w] obtain obs1 r where
    eq0: "Promise_all_stopGroup env ?sibs w =
       (r, w\<lparr>running := ?R, trace := trace w @ map StopGroupCalled ?sibs,
              observed := observed w @ obs1\<rparr>)"
    and r: "(r = None) = (\<not> (\<exists>j \<in> set ?sibs. running w j \<and> stop_rejects env j))"
    and rest1: "length obs1 = length ?sibs"
      "\<forall>ob \<in> set obs1. o_fs_dir ob = fs_dir w \<and> o_db_sessions ob = db_sessions w \<and>
        o_session_cache ob = session_cache w \<and> o_messages ob = messages w \<and>
        o_broadcasts ob = broadcasts w"
    by blast
  from r stops have none: "r = None" by simp
  have run: "?R = (\<lambda>x. running w x \<and> x \<notin> set ?sibs)"
    using stops by (intro ext) auto
  have eq: "Promise_all_stopGroup env ?sibs w = (None, ?w1 obs1)"
    using eq0 none by (simp add: run)
  from clearSessionFiles_eq [of env f "?w1 obs1"] obtain obs2 where
    eq2: "clearSessionFiles env f (?w1 obs1) =
       (if fs_dir (?w1 obs1) (session_dir (?w1 obs1) f) \<noteq> None \<and>
           readdir_throws env (session_dir (?w1 obs1) f)
        then Some (ReaddirSyncFailed (session_dir (?w1 obs1) f)) else None,
        (?w1 obs1)\<lparr>fs_dir := (fs_dir (?w1 obs1))
            (session_dir (?w1 obs1) f :=
               if readdir_throws env (session_dir (?w1 obs1) f)
               then fs_dir (?w1 obs1) (session_dir (?w1 obs1) f)
               else map_option
                      (filter (\<lambda>e. e = ''settings.json'' \<or>
                                    rm_throws env (session_dir (?w1 obs1) f) e))
                      (fs_dir (?w1 obs1) (session_dir (?w1 obs1) f))),
          trace := trace (?w1 obs1) @ clearSessionFiles_events env f (?w1 obs1),
          observed := observed (?w1 obs1) @ obs2\<rparr>)"
    and rest2: "length obs2 = length (clearSessionFiles_events env f (?w1 obs1))"
      "\<forall>ob \<in> set obs2. o_running ob = running (?w1 obs1) \<and>
        o_db_sessions ob = db_sessions (?w1 obs1) \<and>
        o_session_cache ob = session_cache (?w1 obs1) \<and> o_messages ob = messages (?w1 obs1) \<and>
        o_broadcasts ob = broadcasts (?w1 obs1)"
    by blast
  have dir: "(fs_dir w)(session_dir w f :=
               map_option (filter (\<lambda>e. e = ''settings.json'' \<or> rm_throws env (session_dir w f) e))
                 (fs_dir w (session_dir w f))) =
             (fs_dir w)(session_dir w f :=
               if readdir_throws env (session_dir w f) then fs_dir w (session_dir w f)
               else map_option
                      (filter (\<lambda>e. e = ''settings.json'' \<or> rm_throws env (session_dir w f) e))
                      (fs_dir w (session_dir w f)))"
    using listing by (auto simp: fun_eq_iff)
  have len2: "length obs2 = length (clearSessionFiles_events env f w)"
    using rest2(1) by (simp add: clearSessionFiles_events_frame)
  have fr2: "\<forall>ob \<in> set obs2. o_running ob = (\<lambda>x. running w x \<and> x \<notin> set ?sibs) \<and>
        o_db_sessions ob = db_sessions w \<and> o_session_cache ob = session_cache w \<and>
        o_messages ob = messages w \<and> o_broadcasts ob = broadcasts w"
    using rest2(2) by simp
  show ?thesis
    apply (rule exI [of _ obs1])
    apply (rule exI [of _ obs2])
    unfolding dir
    using rest1 len2 fr2 listing
    apply (simp add: executeSessionReset_def Let_def eq eq2 clearSessionFiles_events_frame
          deleteSession_def ensureChatExists_def storeMessageDirect_def broadcast_def
          emit_def observe_def)
    done
qed

lemma clearSessionFiles_events_stage:
  "e \<in> set (clearSessionFiles_events env f w) \<Longrightarrow> reset_stage e = 1"
  by (auto simp: clearSessionFiles_events_def removal_events_def split: option.splits if_splits)

lemma sorted_all_equal: "\<forall>x \<in> set xs. x = (c::nat) \<Longrightarrow> sorted xs"
  by (induction xs) auto

lemma stops_sorted: "sorted (map reset_stage (map StopGroupCalled sibs))"
  by (rule sorted_all_equal [where c = 0]) auto

lemma reset_events_sorted:
  "sorted (map reset_stage
     (map StopGroupCalled sibs @ clearSessionFiles_events env f w @
      [DeleteSessionCalled f, SessionCacheDeleted f, EnsureChatExistsCalled c,
       StoreMessageDirectCalled m] @
      (if b then [] else [BroadcastCalled c m, LoggerInfo c f sibs])))"
proof -
  have 2: "sorted (map reset_stage (clearSessionFiles_events env f w))"
    by (rule sorted_all_equal [where c = 1]) (auto dest: clearSessionFiles_events_stage)
  show ?thesis
    using stops_sorted [of sibs] 2
    by (auto simp: sorted_append dest!: clearSessionFiles_events_stage)
qed

lemma executeSessionReset_trace:
  "\<exists>evs. trace (snd (executeSessionReset env c f mid ts w)) = trace w @ evs \<and>
         sorted (map reset_stage evs)"
proof -
  consider
      (rejected) "\<exists>j \<in> set (getJidsByFolder w f). running w j \<and> stop_rejects env j"
    | (unlisted) "\<not> (\<exists>j \<in> set (getJidsByFolder w f). running w j \<and> stop_rejects env j)"
        "fs_dir w (session_dir w f) \<noteq> None" "readdir_throws env (session_dir w f)"
    | (proceeds) "\<not> (\<exists>j \<in> set (getJidsByFolder w f). running w j \<and> stop_rejects env j)"
        "\<not> (fs_dir w (session_dir w f) \<noteq> None \<and> readdir_throws env (session_dir w f))"
    by blast
  then show ?thesis
  proof cases
    case rejected
    from executeSessionReset_stop_rejected [OF rejected, of c mid ts]
    obtain obs err where "executeSessionReset env c f mid ts w =
       (Some err,
        w\<lparr>running := (\<lambda>x. running w x \<and> (x \<in> set (getJidsByFolder w f) \<longrightarrow> stop_rejects env x)),
          trace := trace w @ map StopGroupCalled (getJidsByFolder w f),
          observed := observed w @ obs\<rparr>)"
      by blast
    then show ?thesis using stops_sorted [of "getJidsByFolder w f"] by simp
  next
    case unlisted
    from executeSessionReset_listing_failed [OF unlisted, of c mid ts]
    obtain obs where "trace (snd (executeSessionReset env c f mid ts w)) =
        trace w @ map StopGroupCalled (getJidsByFolder w f) @ [ReaddirSyncCalled (session_dir w f)]"
      by force
    then show ?thesis
      using stops_sorted [of "getJidsByFolder w f"] by (simp add: sorted_append)
  next
    case proceeds
    from executeSessionReset_proceeds [OF proceeds, of c mid ts]
    have "trace (snd (executeSessionReset env c f mid ts w)) =
        trace w @ map StopGroupCalled (getJidsByFolder w f) @
                 clearSessionFiles_events env f w @
                 [DeleteSessionCalled f, SessionCacheDeleted f, EnsureChatExistsCalled c,
                  StoreMessageDirectCalled (divider_message c mid ts)] @
                 (if store_throws env then []
                  else [BroadcastCalled c (divider_message c mid ts),
                        LoggerInfo c f (getJidsByFolder w f)])"
      by force
    then show ?thesis
      using reset_events_sorted
        [of "getJidsByFolder w f" env f w c "divider_message c mid ts" "store_throws env"]
      by simp
  qed
qed

lemma Ball_zip_append:
  "length xs = length us \<Longrightarrow>
   (\<forall>p \<in> set (zip (xs @ ys) (us @ vs)). P p) =
     ((\<forall>p \<in> set (zip xs us). P p) \<and> (\<forall>p \<in> set (zip ys vs). P p))"
  by (auto simp: zip_append)

lemma Ball_zipI:
  assumes "\<forall>x \<in> set xs. A x" and "\<forall>y \<in> set ys. B y"
    and "\<And>x y. A x \<Longrightarrow> B y \<Longrightarrow> P (x, y)"
  shows "\<forall>p \<in> set (zip xs ys). P p"
proof
  fix p assume p: "p \<in> set (zip xs ys)"
  obtain x y where xy: "p = (x, y)" by (cases p)
  from p xy have "x \<in> set xs" "y \<in> set ys"
    by (auto dest: set_zip_leftD set_zip_rightD)
  with assms(1,2) have "A x" "B y" by auto
  then show "P p" unfolding xy by (rule assms(3))
qed

lemma executeSessionReset_fulfilled:
  assumes "executeSessionReset env c f mid ts w = (None, w')"
  shows "\<not> (\<exists>j \<in> set (getJidsByFolder w f). running w j \<and> stop_rejects env j)"
    and "\<not> (fs_dir w (session_dir w f) \<noteq> None \<and> readdir_throws env (session_dir w f))"
    and "\<not> store_throws env"
proof -
  show 1: "\<not> (\<exists>j \<in> set (getJidsByFolder w f). running w j \<and> stop_rejects env j)"
  proof
    assume "\<exists>j \<in> set (getJidsByFolder w f). running w j \<and> stop_rejects env j"
    from executeSessionReset_stop_rejected [OF this, of c mid ts] assms show False by auto
  qed
  show 2: "\<not> (fs_dir w (session_dir w f) \<noteq> None \<and> readdir_throws env (session_dir w f))"
  proof
    assume a: "fs_dir w (session_dir w f) \<noteq> None \<and> readdir_throws env (session_dir w f)"
    from executeSessionReset_listing_failed [OF 1 conjunct1 [OF a] conjunct2 [OF a], of c mid ts]
      assms show False by auto
  qed
  show "\<not> store_throws env"
  proof
    assume "store_throws env"
    with executeSessionReset_proceeds [OF 1 2, of c mid ts] assms show False by auto
  qed
qed

lemma executeSessionReset_fulfilled_world:
  assumes "executeSessionReset env c f mid ts w = (None, w')"
  shows "registered w' = registered w \<and> session_dir w' = session_dir w \<and>
     running w' = (\<lambda>x. running w x \<and> x \<notin> set (getJidsByFolder w f)) \<and>
     fs_dir w' = (fs_dir w)
          (session_dir w f :=
             map_option (filter (\<lambda>e. e = ''settings.json'' \<or> rm_throws env (session_dir w f) e))
               (fs_dir w (session_dir w f))) \<and>
     db_sessions w' = (db_sessions w)(f := None) \<and>
     session_cache w' = (session_cache w)(f := None) \<and>
     chats w' = (chats w)(c := True) \<and>
     messages w' = messages w @ [divider_message c mid ts] \<and>
     broadcasts w' = broadcasts w @ [(c, divider_message c mid ts)] \<and>
     trace w' = trace w @ map StopGroupCalled (getJidsByFolder w f) @
                 clearSessionFiles_events env f w @
                 [DeleteSessionCalled f, SessionCacheDeleted f, EnsureChatExistsCalled c,
                  StoreMessageDirectCalled (divider_message c mid ts),
                  BroadcastCalled c (divider_message c mid ts),
                  LoggerInfo c f (getJidsByFolder w f)]"
proof -
  note f = executeSessionReset_fulfilled [OF assms]
  from executeSessionReset_proceeds [OF f(1,2), of c mid ts] obtain W where
    eq: "executeSessionReset env c f mid ts w = (None, W)"
    and W: "registered W = registered w" "session_dir W = session_dir w"
     "running W = (\<lambda>x. running w x \<and> x \<notin> set (getJidsByFolder w f))"
     "fs_dir W = (fs_dir w)
          (session_dir w f :=
             map_option (filter (\<lambda>e. e = ''settings.json'' \<or> rm_throws env (session_dir w f) e))
               (fs_dir w (session_dir w f)))"
     "db_sessions W = (db_sessions w)(f := None)"
     "session_cache W = (session_cache w)(f := None)"
     "chats W = (chats w)(c := True)"
     "messages W = messages w @ [divider_message c mid ts]"
     "broadcasts W = broadcasts w @ [(c, divider_message c mid ts)]"
     "trace W = trace w @ map StopGroupCalled (getJidsByFolder w f) @
                 clearSessionFiles_events env f w @
                 [DeleteSessionCalled f, SessionCacheDeleted f, EnsureChatExistsCalled c,
                  StoreMessageDirectCalled (divider_message c mid ts),
                  BroadcastCalled c (divider_message c mid ts),
                  LoggerInfo c f (getJidsByFolder w f)]"
    using f(3) by fastforce
  from eq assms have "w' = W" by simp
  with W show ?thesis by simp
qed

lemma Promise_all_stopGroup_error:
  assumes "fst (Promise_all_stopGroup env sibs w) = Some err"
  shows "\<exists>j \<in> set sibs. running w j \<and> stop_rejects env j \<and> err = StopGroupRejected j"
proof -
  from stopGroup_each_eq [of env sibs w] obtain obs where
    "stopGroup_each env sibs w =
       (map StopGroupRejected (filter (\<lambda>j. running w j \<and> stop_rejects env j) sibs),
        w\<lparr>running := (\<lambda>x. running w x \<and> (x \<in> set sibs \<longrightarrow> stop_rejects env x)),
          trace := trace w @ map StopGroupCalled sibs,
          observed := observed w @ obs\<rparr>)"
    by (elim exE conjE)
  then obtain W where
    eq: "stopGroup_each env sibs w =
       (map StopGroupRejected (filter (\<lambda>j. running w j \<and> stop_rejects env j) sibs), W)"
    by (rule that)
  let ?errs = "map StopGroupRejected (filter (\<lambda>j. running w j \<and> stop_rejects env j) sibs)"
  have "err \<in> set ?errs"
  proof (cases ?errs)
    case Nil
    with assms show ?thesis by (simp add: Promise_all_stopGroup_def eq)
  next
    case (Cons r rs)
    with assms have "err = (if settles_first env (r # rs) \<in> set (r # rs)
                            then settles_first env (r # rs) else r)"
      by (simp add: Promise_all_stopGroup_def eq)
    then have "err \<in> set (r # rs)" by (simp split: if_splits)
    with Cons show ?thesis by simp
  qed
  then show ?thesis by auto
qed

lemma executeSessionReset_stop_error:
  assumes "\<exists>j \<in> set (getJidsByFolder w f). running w j \<and> stop_rejects env j"
  shows "\<exists>j \<in> set (getJidsByFolder w f). running w j \<and> stop_rejects env j \<and>
           fst (executeSessionReset env c f mid ts w) = Some (StopGroupRejected j)"
proof -
  let ?sibs = "getJidsByFolder w f"
  from Promise_all_stopGroup_eq [of env ?sibs w] obtain obs r where
    eq0: "Promise_all_stopGroup env ?sibs w =
       (r, w\<lparr>running := (\<lambda>x. running w x \<and> (x \<in> set ?sibs \<longrightarrow> stop_rejects env x)),
          trace := trace w @ map StopGroupCalled ?sibs,
          observed := observed w @ obs\<rparr>)"
    and r: "(r = None) = (\<not> (\<exists>j \<in> set ?sibs. running w j \<and> stop_rejects env j))"
    by (elim exE conjE)
  from r assms obtain err where "r = Some err" by auto
  with eq0 obtain W where eq: "Promise_all_stopGroup env ?sibs w = (Some err, W)"
    by simp
  then have "fst (Promise_all_stopGroup env ?sibs w) = Some err" by simp
  from Promise_all_stopGroup_error [OF this]
  have "\<exists>j \<in> set ?sibs. running w j \<and> stop_rejects env j \<and> err = StopGroupRejected j" .
  moreover have "fst (executeSessionReset env c f mid ts w) = Some err"
    by (simp add: executeSessionReset_def Let_def eq)
  ultimately show ?thesis by auto
qed

lemma executeSessionReset_stop_rejected_frame:
  assumes "\<exists>j \<in> set (getJidsByFolder w f). running w j \<and> stop_rejects env j"
  shows "new_events w (snd (executeSessionReset env c f mid ts w)) =
        map StopGroupCalled (getJidsByFolder w f) \<and>
      fs_dir (snd (executeSessionReset env c f mid ts w)) = fs_dir w \<and>
      db_sessions (snd (executeSessionReset env c f mid ts w)) = db_sessions w \<and>
      session_cache (snd (executeSessionReset env c f mid ts w)) = session_cache w \<and>
      messages (snd (executeSessionReset env c f mid ts w)) = messages w \<and>
      broadcasts (snd (executeSessionReset env c f mid ts w)) = broadcasts w"
  using executeSessionReset_stop_rejected [OF assms, of c mid ts]
  by (elim exE conjE) (simp add: new_events_def)

lemma executeSessionReset_listing_failed_frame:
  assumes "\<not> (\<exists>j \<in> set (getJidsByFolder w f). running w j \<and> stop_rejects env j)"
    and "fs_dir w (session_dir w f) \<noteq> None" and "readdir_throws env (session_dir w f)"
  shows "fst (executeSessionReset env c f mid ts w) = Some (ReaddirSyncFailed (session_dir w f)) \<and>
      new_events w (snd (executeSessionReset env c f mid ts w)) =
        map StopGroupCalled (getJidsByFolder w f) @ [ReaddirSyncCalled (session_dir w f)] \<and>
      fs_dir (snd (executeSessionReset env c f mid ts w)) = fs_dir w \<and>
      db_sessions (snd (executeSessionReset env c f mid ts w)) = db_sessions w \<and>
      session_cache (snd (executeSessionReset env c f mid ts w)) = session_cache w \<and>
      messages (snd (executeSessionReset env c f mid ts w)) = messages w \<and>
      broadcasts (snd (executeSessionReset env c f mid ts w)) = broadcasts w"
  using executeSessionReset_listing_failed [OF assms, of c mid ts]
  by (elim exE conjE) (simp add: new_events_def)

lemma executeSessionReset_insertion_result:
  assumes "\<not> (\<exists>j \<in> set (getJidsByFolder w f). running w j \<and> stop_rejects env j)"
    and "\<not> (fs_dir w (session_dir w f) \<noteq> None \<and> readdir_throws env (session_dir w f))"
  shows "fst (executeSessionReset env c f mid ts w) =
           (if store_throws env then Some StoreMessageFailed else None)"
  using executeSessionReset_proceeds [OF assms, of c mid ts]
  by (elim exE conjE) simp

lemma getJidsByFolder_registered:
  "registered w' = registered w \<Longrightarrow> getJidsByFolder w' f = getJidsByFolder w f"
  by (simp add: getJidsByFolder_def)

lemma example_world_simps:
  "session_dir example_world ''f'' = ''data/sessions/f/.claude''"
  "session_dir example_world ''o'' = ''data/sessions/o/.claude''"
  "fs_dir example_world ''data/sessions/f/.claude'' =
     Some [''a.jsonl'', ''settings.json'', ''projects'', ''b.jsonl'']"
  "fs_dir example_world ''data/sessions/o/.claude'' = None"
  "getJidsByFolder example_world ''f'' = [''web:g1'', ''tg:g2'']"
  "running example_world ''web:g1''" "running example_world ''tg:g2''"
  "db_sessions example_world ''f'' = Some ''session-1''"
  "session_cache example_world ''f'' = Some ''session-1''"
  "messages example_world = []" "broadcasts example_world = []"
  "trace example_world = []" "observed example_world = []"
  by (simp_all add: example_world_def getJidsByFolder_def)

lemma example_faults_simps:
  "stop_rejects no_faults j = False" "readdir_throws no_faults p = False"
  "rm_throws no_faults p e = False" "store_throws no_faults = False"
  "stop_rejects sibling_stop_fails j = (j = ''tg:g2'')"
  "store_throws sibling_stop_fails = False"
  "stop_rejects listing_fails j = False" "readdir_throws listing_fails p = True"
  "store_throws listing_fails = False"
  "stop_rejects projects_rm_fails j = False" "readdir_throws projects_rm_fails p = False"
  "rm_throws projects_rm_fails p e = (e = ''projects'')" "store_throws projects_rm_fails = False"
  "stop_rejects insertion_fails j = False" "readdir_throws insertion_fails p = False"
  "rm_throws insertion_fails p e = False" "store_throws insertion_fails = True"
  by (simp_all add: no_faults_def sibling_stop_fails_def listing_fails_def
        projects_rm_fails_def insertion_fails_def)

lemmas reset_examples = example_world_simps example_faults_simps

lemma example_reset_run:
  "executeSessionReset no_faults ''web:g1'' ''f'' ''id1'' ''t1'' example_world =
     (None, example_after_reset)"
  using executeSessionReset_insertion_result
          [of example_world "''f''" no_faults "''web:g1''" "''id1''" "''t1''"]
  by (simp add: reset_examples example_after_reset_def prod_eq_iff)

lemma example_failed_removal_run:
  "executeSessionReset projects_rm_fails ''web:g1'' ''f'' ''id1'' ''t1'' example_world =
     (None, example_after_failed_removal)"
  using executeSessionReset_insertion_result
          [of example_world "''f''" projects_rm_fails "''web:g1''" "''id1''" "''t1''"]
  by (simp add: reset_examples example_after_failed_removal_def prod_eq_iff)

lemma example_after_reset_simps:
  "session_dir example_after_reset ''f'' = ''data/sessions/f/.claude''"
  "getJidsByFolder example_after_reset ''f'' = [''web:g1'', ''tg:g2'']"
  "running example_after_reset ''web:g1'' = False" "running example_after_reset ''tg:g2'' = False"
  "fs_dir example_after_reset ''data/sessions/f/.claude'' = Some [''settings.json'']"
  "db_sessions example_after_reset ''f'' = None"
  "session_cache example_after_reset ''f'' = None"
  "messages example_after_reset = [divider_message ''web:g1'' ''id1'' ''t1'']"
  "broadcasts example_after_reset = [(''web:g1'', divider_message ''web:g1'' ''id1'' ''t1'')]"
  "new_events example_world example_after_reset =
     [StopGroupCalled ''web:g1'', StopGroupCalled ''tg:g2'',
      ReaddirSyncCalled ''data/sessions/f/.claude'',
      RmSyncCalled ''data/sessions/f/.claude'' ''a.jsonl'',
      RmSyncCalled ''data/sessions/f/.claude'' ''projects'',
      RmSyncCalled ''data/sessions/f/.claude'' ''b.jsonl'',
      DeleteSessionCalled ''f'', SessionCacheDeleted ''f'', EnsureChatExistsCalled ''web:g1'',
      StoreMessageDirectCalled (divider_message ''web:g1'' ''id1'' ''t1''),
      BroadcastCalled ''web:g1'' (divider_message ''web:g1'' ''id1'' ''t1''),
      LoggerInfo ''web:g1'' ''f'' [''web:g1'', ''tg:g2'']]"
proof -
  from executeSessionReset_fulfilled_world [OF example_reset_run]
  have reg: "registered example_after_reset = registered example_world"
    and W: "session_dir example_after_reset = session_dir example_world"
    "running example_after_reset =
       (\<lambda>x. running example_world x \<and> x \<notin> set (getJidsByFolder example_world ''f''))"
    "fs_dir example_after_reset = (fs_dir example_world)
          (session_dir example_world ''f'' :=
             map_option (filter (\<lambda>e. e = ''settings.json'' \<or>
                 rm_throws no_faults (session_dir example_world ''f'') e))
               (fs_dir example_world (session_dir example_world ''f'')))"
    "db_sessions example_after_reset = (db_sessions example_world)(''f'' := None)"
    "session_cache example_after_reset = (session_cache example_world)(''f'' := None)"
    "messages example_after_reset =
       messages example_world @ [divider_message ''web:g1'' ''id1'' ''t1'']"
    "broadcasts example_after_reset =
       broadcasts example_world @ [(''web:g1'', divider_message ''web:g1'' ''id1'' ''t1'')]"
    "trace example_after_reset = trace example_world @
       map StopGroupCalled (getJidsByFolder example_world ''f'') @
       clearSessionFiles_events no_faults ''f'' example_world @
       [DeleteSessionCalled ''f'', SessionCacheDeleted ''f'', EnsureChatExistsCalled ''web:g1'',
        StoreMessageDirectCalled (divider_message ''web:g1'' ''id1'' ''t1''),
        BroadcastCalled ''web:g1'' (divider_message ''web:g1'' ''id1'' ''t1''),
        LoggerInfo ''web:g1'' ''f'' (getJidsByFolder example_world ''f'')]"
    by blast+
  note sibs = getJidsByFolder_registered [OF reg, of "''f''"]
  show "session_dir example_after_reset ''f'' = ''data/sessions/f/.claude''"
    "getJidsByFolder example_after_reset ''f'' = [''web:g1'', ''tg:g2'']"
    "running example_after_reset ''web:g1'' = False" "running example_after_reset ''tg:g2'' = False"
    "fs_dir example_after_reset ''data/sessions/f/.claude'' = Some [''settings.json'']"
    "db_sessions example_after_reset ''f'' = None"
    "session_cache example_after_reset ''f'' = None"
    "messages example_after_reset = [divider_message ''web:g1'' ''id1'' ''t1'']"
    "broadcasts example_after_reset = [(''web:g1'', divider_message ''web:g1'' ''id1'' ''t1'')]"
    "new_events example_world example_after_reset =
     [StopGroupCalled ''web:g1'', StopGroupCalled ''tg:g2'',
      ReaddirSyncCalled ''data/sessions/f/.claude'',
      RmSyncCalled ''data/sessions/f/.claude'' ''a.jsonl'',
      RmSyncCalled ''data/sessions/f/.claude'' ''projects'',
      RmSyncCalled ''data/sessions/f/.claude'' ''b.jsonl'',
      DeleteSessionCalled ''f'', SessionCacheDeleted ''f'', EnsureChatExistsCalled ''web:g1'',
      StoreMessageDirectCalled (divider_message ''web:g1'' ''id1'' ''t1''),
      BroadcastCalled ''web:g1'' (divider_message ''web:g1'' ''id1'' ''t1''),
      LoggerInfo ''web:g1'' ''f'' [''web:g1'', ''tg:g2'']]"
    by (simp_all add: sibs W reset_examples new_events_def
          clearSessionFiles_events_def removal_events_def)
qed

lemma example_after_failed_removal_simps:
  "session_dir example_after_failed_removal ''f'' = ''data/sessions/f/.claude''"
  "getJidsByFolder example_after_failed_removal ''f'' = [''web:g1'', ''tg:g2'']"
  "running example_after_failed_removal ''web:g1'' = False"
  "running example_after_failed_removal ''tg:g2'' = False"
  "fs_dir example_after_failed_removal ''data/sessions/f/.claude'' =
     Some [''settings.json'', ''projects'']"
proof -
  from executeSessionReset_fulfilled_world [OF example_failed_removal_run]
  have reg: "registered example_after_failed_removal = registered example_world"
    and W: "session_dir example_after_failed_removal = session_dir example_world"
    "running example_after_failed_removal =
       (\<lambda>x. running example_world x \<and> x \<notin> set (getJidsByFolder example_world ''f''))"
    "fs_dir example_after_failed_removal = (fs_dir example_world)
          (session_dir example_world ''f'' :=
             map_option (filter (\<lambda>e. e = ''settings.json'' \<or>
                 rm_throws projects_rm_fails (session_dir example_world ''f'') e))
               (fs_dir example_world (session_dir example_world ''f'')))"
    by blast+
  note sibs = getJidsByFolder_registered [OF reg, of "''f''"]
  show "session_dir example_after_failed_removal ''f'' = ''data/sessions/f/.claude''"
    "getJidsByFolder example_after_failed_removal ''f'' = [''web:g1'', ''tg:g2'']"
    "running example_after_failed_removal ''web:g1'' = False"
    "running example_after_failed_removal ''tg:g2'' = False"
    "fs_dir example_after_failed_removal ''data/sessions/f/.claude'' =
       Some [''settings.json'', ''projects'']"
    by (simp_all add: sibs W reset_examples)
qed

lemma example_second_reset_runs:
  "fst (executeSessionReset no_faults ''web:g1'' ''f'' ''id2'' ''t2'' example_after_failed_removal) = None"
  "fst (executeSessionReset no_faults ''web:g1'' ''f'' ''id2'' ''t2'' example_after_reset) = None"
  "fst (executeSessionReset insertion_fails ''web:g1'' ''f'' ''id2'' ''t2'' example_after_reset) =
     Some StoreMessageFailed"
  "fst (executeSessionReset listing_fails ''web:g1'' ''f'' ''id2'' ''t2'' example_after_reset) =
     Some (ReaddirSyncFailed ''data/sessions/f/.claude'')"
  using executeSessionReset_insertion_result
          [of example_after_failed_removal "''f''" no_faults "''web:g1''" "''id2''" "''t2''"]
        executeSessionReset_insertion_result
          [of example_after_reset "''f''" no_faults "''web:g1''" "''id2''" "''t2''"]
        executeSessionReset_insertion_result
          [of example_after_reset "''f''" insertion_fails "''web:g1''" "''id2''" "''t2''"]
        executeSessionReset_listing_failed_frame
          [of example_after_reset "''f''" listing_fails "''web:g1''" "''id2''" "''t2''"]
  by (simp_all add: reset_examples example_after_reset_simps example_after_failed_removal_simps)

lemma example_second_reset_directory:
  "fs_dir (snd (executeSessionReset no_faults ''web:g1'' ''f'' ''id2'' ''t2''
                  example_after_failed_removal)) ''data/sessions/f/.claude'' =
     Some [''settings.json'']"
proof -
  have eq: "executeSessionReset no_faults ''web:g1'' ''f'' ''id2'' ''t2'' example_after_failed_removal =
     (None, snd (executeSessionReset no_faults ''web:g1'' ''f'' ''id2'' ''t2''
                   example_after_failed_removal))"
    using example_second_reset_runs(1) by (simp add: prod_eq_iff)
  from executeSessionReset_fulfilled_world [OF eq]
  have "fs_dir (snd (executeSessionReset no_faults ''web:g1'' ''f'' ''id2'' ''t2''
                  example_after_failed_removal)) =
    (fs_dir example_after_failed_removal)
          (session_dir example_after_failed_removal ''f'' :=
             map_option (filter (\<lambda>e. e = ''settings.json'' \<or>
                 rm_throws no_faults (session_dir example_after_failed_removal ''f'') e))
               (fs_dir example_after_failed_removal (session_dir example_after_failed_removal ''f'')))"
    by blast
  then show ?thesis
    by (simp add: reset_examples example_after_failed_removal_simps)
qed

text \<open>
  C1 says that the reset fails only if the insertion of the marker fails, that a sibling
  whose forced stop rejects is skipped, and that stop and cleanup failures never reject
  the returned promise. In the example the insertion works in both runs. In the first the
  stop of the sibling \<open>tg:g2\<close> rejects: the promise is rejected with that rejection, and the
  session record, the session files and the messages are as they were, so the reset did
  not proceed. In the second no stop rejects but the \<open>.claude\<close> directory cannot be listed:
  the promise is rejected with the exception of \<open>readdirSync\<close>.
\<close>

theorem executeSessionReset_stop_rejection_counterexample:
  "fst (executeSessionReset sibling_stop_fails ''web:g1'' ''f'' ''id1'' ''t1'' example_world) =
     Some (StopGroupRejected ''tg:g2'') \<and>
   \<not> store_throws sibling_stop_fails \<and>
   db_sessions (snd (executeSessionReset sibling_stop_fails ''web:g1'' ''f'' ''id1'' ''t1'' example_world)) ''f'' =
     Some ''session-1'' \<and>
   fs_dir (snd (executeSessionReset sibling_stop_fails ''web:g1'' ''f'' ''id1'' ''t1'' example_world))
       ''data/sessions/f/.claude'' =
     Some [''a.jsonl'', ''settings.json'', ''projects'', ''b.jsonl''] \<and>
   messages (snd (executeSessionReset sibling_stop_fails ''web:g1'' ''f'' ''id1'' ''t1'' example_world)) = [] \<and>
   fst (executeSessionReset listing_fails ''web:g1'' ''f'' ''id1'' ''t1'' example_world) =
     Some (ReaddirSyncFailed ''data/sessions/f/.claude'') \<and>
   \<not> store_throws listing_fails"
  using executeSessionReset_stop_error
          [of example_world "''f''" sibling_stop_fails "''web:g1''" "''id1''" "''t1''"]
        executeSessionReset_stop_rejected_frame
          [of example_world "''f''" sibling_stop_fails "''web:g1''" "''id1''" "''t1''"]
        executeSessionReset_listing_failed_frame
          [of example_world "''f''" listing_fails "''web:g1''" "''id1''" "''t1''"]
  by (simp add: reset_examples)

text \<open>
  C1, amended. \<open>executeSessionReset\<close> fails only if the forced stop of a sibling with a live
  sandbox rejects, or the \<open>.claude\<close> directory exists and cannot be listed, or the insertion
  of the marker fails; a failure to remove an entry of the directory is none of these.
  A sibling whose stop rejects is not skipped: the promise is rejected with the rejection
  of such a sibling, and after the stops nothing more happens: no file is removed, the
  session record and the cache entry stay, no marker is stored or broadcast. When no stop
  rejects and the directory cannot be listed, the promise is rejected with that exception
  right after the listing, with the same things left as they were.
\<close>

theorem executeSessionReset_rejected_only_if:
  "(fst (executeSessionReset env c f mid ts w) \<noteq> None \<longrightarrow>
      (\<exists>j \<in> set (getJidsByFolder w f). running w j \<and> stop_rejects env j) \<or>
      (fs_dir w (session_dir w f) \<noteq> None \<and> readdir_throws env (session_dir w f)) \<or>
      store_throws env) \<and>
   ((\<exists>j \<in> set (getJidsByFolder w f). running w j \<and> stop_rejects env j) \<longrightarrow>
      (\<exists>j \<in> set (getJidsByFolder w f). running w j \<and> stop_rejects env j \<and>
         fst (executeSessionReset env c f mid ts w) = Some (StopGroupRejected j)) \<and>
      new_events w (snd (executeSessionReset env c f mid ts w)) =
        map StopGroupCalled (getJidsByFolder w f) \<and>
      fs_dir (snd (executeSessionReset env c f mid ts w)) = fs_dir w \<and>
      db_sessions (snd (executeSessionReset env c f mid ts w)) = db_sessions w \<and>
      session_cache (snd (executeSessionReset env c f mid ts w)) = session_cache w \<and>
      messages (snd (executeSessionReset env c f mid ts w)) = messages w \<and>
      broadcasts (snd (executeSessionReset env c f mid ts w)) = broadcasts w) \<and>
   (\<not> (\<exists>j \<in> set (getJidsByFolder w f). running w j \<and> stop_rejects env j) \<and>
    fs_dir w (session_dir w f) \<noteq> None \<and> readdir_throws env (session_dir w f) \<longrightarrow>
      fst (executeSessionReset env c f mid ts w) = Some (ReaddirSyncFailed (session_dir w f)) \<and>
      new_events w (snd (executeSessionReset env c f mid ts w)) =
        map StopGroupCalled (getJidsByFolder w f) @ [ReaddirSyncCalled (session_dir w f)] \<and>
      fs_dir (snd (executeSessionReset env c f mid ts w)) = fs_dir w \<and>
      db_sessions (snd (executeSessionReset env c f mid ts w)) = db_sessions w \<and>
      session_cache (snd (executeSessionReset env c f mid ts w)) = session_cache w \<and>
      messages (snd (executeSessionReset env c f mid ts w)) = messages w \<and>
      broadcasts (snd (executeSessionReset env c f mid ts w)) = broadcasts w)"
proof -
  let ?r = "executeSessionReset env c f mid ts w"
  let ?A = "\<exists>j \<in> set (getJidsByFolder w f). running w j \<and> stop_rejects env j"
  let ?B = "fs_dir w (session_dir w f) \<noteq> None \<and> readdir_throws env (session_dir w f)"
  have cause: "?A \<or> ?B \<or> store_throws env" if rej: "fst ?r \<noteq> None"
  proof (rule ccontr)
    assume "\<not> (?A \<or> ?B \<or> store_throws env)"
    then have a: "\<not> ?A" and b: "\<not> ?B" and s: "\<not> store_throws env" by blast+
    from executeSessionReset_insertion_result [OF a b, of c mid ts] s have "fst ?r = None"
      by simp
    with rej show False by simp
  qed
  show ?thesis
    apply (rule conjI)
     apply (rule impI)
     apply (erule cause)
    apply (rule conjI)
     apply (rule impI)
     apply (rule conjI)
      apply (erule executeSessionReset_stop_error)
     apply (erule executeSessionReset_stop_rejected_frame)
    apply (rule impI)
    apply (elim conjE)
    apply (rule executeSessionReset_listing_failed_frame)
      apply assumption+
    done
qed

theorem executeSessionReset_rejected_only_if_witness:
  "fst (executeSessionReset insertion_fails ''web:g1'' ''f'' ''id1'' ''t1'' example_world) \<noteq> None \<and>
   store_throws insertion_fails \<and>
   fst (executeSessionReset sibling_stop_fails ''web:g1'' ''f'' ''id1'' ''t1'' example_world) =
     Some (StopGroupRejected ''tg:g2'') \<and>
   new_events example_world
     (snd (executeSessionReset sibling_stop_fails ''web:g1'' ''f'' ''id1'' ''t1'' example_world)) =
     [StopGroupCalled ''web:g1'', StopGroupCalled ''tg:g2''] \<and>
   messages (snd (executeSessionReset sibling_stop_fails ''web:g1'' ''f'' ''id1'' ''t1'' example_world)) = [] \<and>
   fst (executeSessionReset listing_fails ''web:g1'' ''f'' ''id1'' ''t1'' example_world) =
     Some (ReaddirSyncFailed ''data/sessions/f/.claude'') \<and>
   new_events example_world
     (snd (executeSessionReset listing_fails ''web:g1'' ''f'' ''id1'' ''t1'' example_world)) =
     [StopGroupCalled ''web:g1'', StopGroupCalled ''tg:g2'',
      ReaddirSyncCalled ''data/sessions/f/.claude'']"
  using executeSessionReset_rejected_only_if
          [of insertion_fails "''web:g1''" "''f''" "''id1''" "''t1''" example_world]
        executeSessionReset_rejected_only_if
          [of sibling_stop_fails "''web:g1''" "''f''" "''id1''" "''t1''" example_world]
        executeSessionReset_rejected_only_if
          [of listing_fails "''web:g1''" "''f''" "''id1''" "''t1''" example_world]
        executeSessionReset_insertion_result
          [of example_world "''f''" insertion_fails "''web:g1''" "''id1''" "''t1''"]
  by (simp add: reset_examples)

text \<open>
  C2. In every execution of \<open>executeSessionReset\<close>, fulfilled or rejected, the events of the
  call and what could be seen of the system at each of them are as follows. The events
  start with the forced stop of every sibling, in the order of the siblings, and every
  event after these belongs to a later stage. The events come in the order of the stages:
  stops, removal of the session artifacts, deletion of the session record and of the
  cache entry, the chat row, the insertion of the marker, its broadcast, the log line.
  At every stop nothing has been deleted, stored or broadcast yet. From the first event
  of the removal on no sibling owns a live sandbox. When the session record is deleted
  the directory already has its final content; when the chat row is written and the
  marker is inserted the session record and the cache entry are gone; up to the insertion
  the marker is not in the store, and it is there when it is broadcast; nothing is
  broadcast before then.
\<close>

theorem executeSessionReset_stop_then_delete_then_mark:
  "let r = executeSessionReset env c f mid ts w;
       sibs = getJidsByFolder w f;
       evs = new_events w (snd r);
       obs = new_observations w (snd r)
   in trace (snd r) = trace w @ evs \<and> observed (snd r) = observed w @ obs \<and>
      length obs = length evs \<and>
      take (length sibs) evs = map StopGroupCalled sibs \<and>
      (\<forall>e \<in> set (drop (length sibs) evs). 1 \<le> reset_stage e) \<and>
      (\<forall>i j. i < length evs \<and> j < length evs \<and>
             reset_stage (evs ! i) < reset_stage (evs ! j) \<longrightarrow> i < j) \<and>
      (\<forall>(e, ob) \<in> set (zip evs obs).
         (reset_stage e = 0 \<longrightarrow>
            o_fs_dir ob = fs_dir w \<and> o_db_sessions ob = db_sessions w \<and>
            o_session_cache ob = session_cache w \<and> o_messages ob = messages w \<and>
            o_broadcasts ob = broadcasts w) \<and>
         (1 \<le> reset_stage e \<longrightarrow> (\<forall>s \<in> set sibs. \<not> o_running ob s)) \<and>
         (2 \<le> reset_stage e \<longrightarrow>
            o_fs_dir ob = (fs_dir w)
              (session_dir w f :=
                 map_option (filter (\<lambda>x. x = ''settings.json'' \<or> rm_throws env (session_dir w f) x))
                   (fs_dir w (session_dir w f)))) \<and>
         (3 \<le> reset_stage e \<longrightarrow> o_db_sessions ob f = None \<and> o_session_cache ob f = None) \<and>
         (reset_stage e \<le> 4 \<longrightarrow> o_messages ob = messages w) \<and>
         (5 \<le> reset_stage e \<longrightarrow> o_messages ob = messages w @ [divider_message c mid ts]) \<and>
         (reset_stage e \<le> 5 \<longrightarrow> o_broadcasts ob = broadcasts w) \<and>
         (6 \<le> reset_stage e \<longrightarrow>
            o_broadcasts ob = broadcasts w @ [(c, divider_message c mid ts)]))"
proof -
  let ?r = "executeSessionReset env c f mid ts w"
  let ?sibs = "getJidsByFolder w f"
  let ?D = "(fs_dir w)
              (session_dir w f :=
                 map_option (filter (\<lambda>x. x = ''settings.json'' \<or> rm_throws env (session_dir w f) x))
                   (fs_dir w (session_dir w f)))"
  let ?m = "divider_message c mid ts"
  let ?Q = "\<lambda>(e, ob).
         (reset_stage e = 0 \<longrightarrow>
            o_fs_dir ob = fs_dir w \<and> o_db_sessions ob = db_sessions w \<and>
            o_session_cache ob = session_cache w \<and> o_messages ob = messages w \<and>
            o_broadcasts ob = broadcasts w) \<and>
         (1 \<le> reset_stage e \<longrightarrow> (\<forall>s \<in> set ?sibs. \<not> o_running ob s)) \<and>
         (2 \<le> reset_stage e \<longrightarrow> o_fs_dir ob = ?D) \<and>
         (3 \<le> reset_stage e \<longrightarrow> o_db_sessions ob f = None \<and> o_session_cache ob f = None) \<and>
         (reset_stage e \<le> 4 \<longrightarrow> o_messages ob = messages w) \<and>
         (5 \<le> reset_stage e \<longrightarrow> o_messages ob = messages w @ [?m]) \<and>
         (reset_stage e \<le> 5 \<longrightarrow> o_broadcasts ob = broadcasts w) \<and>
         (6 \<le> reset_stage e \<longrightarrow> o_broadcasts ob = broadcasts w @ [(c, ?m)])"
  let ?frame1 = "\<lambda>ob. o_fs_dir ob = fs_dir w \<and> o_db_sessions ob = db_sessions w \<and>
        o_session_cache ob = session_cache w \<and> o_messages ob = messages w \<and>
        o_broadcasts ob = broadcasts w"
  have stage0: "\<forall>e \<in> set (map StopGroupCalled ?sibs). reset_stage e = 0" by auto
  have seg1: "\<forall>p \<in> set (zip (map StopGroupCalled ?sibs) obs). ?Q p"
    if "\<forall>ob \<in> set obs. ?frame1 ob" for obs
    by (rule Ball_zipI [OF stage0 that]) simp
  have main: "\<exists>evs obs. trace (snd ?r) = trace w @ evs \<and> observed (snd ?r) = observed w @ obs \<and>
      length obs = length evs \<and> take (length ?sibs) evs = map StopGroupCalled ?sibs \<and>
      (\<forall>e \<in> set (drop (length ?sibs) evs). 1 \<le> reset_stage e) \<and>
      (\<forall>p \<in> set (zip evs obs). ?Q p)"
  proof -
    consider
        (rejected) "\<exists>j \<in> set ?sibs. running w j \<and> stop_rejects env j"
      | (unlisted) "\<not> (\<exists>j \<in> set ?sibs. running w j \<and> stop_rejects env j)"
          "fs_dir w (session_dir w f) \<noteq> None" "readdir_throws env (session_dir w f)"
      | (proceeds) "\<not> (\<exists>j \<in> set ?sibs. running w j \<and> stop_rejects env j)"
          "\<not> (fs_dir w (session_dir w f) \<noteq> None \<and> readdir_throws env (session_dir w f))"
      by blast
    then show ?thesis
    proof cases
      case rejected
      from executeSessionReset_stop_rejected [OF rejected, of c mid ts]
      obtain obs err where eq: "?r =
         (Some err,
          w\<lparr>running := (\<lambda>x. running w x \<and> (x \<in> set ?sibs \<longrightarrow> stop_rejects env x)),
            trace := trace w @ map StopGroupCalled ?sibs,
            observed := observed w @ obs\<rparr>)"
        and len: "length obs = length ?sibs" and fr: "\<forall>ob \<in> set obs. ?frame1 ob"
        by blast
      show ?thesis
        apply (rule exI [of _ "map StopGroupCalled ?sibs"])
        apply (rule exI [of _ obs])
        using len seg1 [OF fr]
        apply (simp add: eq)
        done
    next
      case unlisted
      let ?ob = "\<lparr>o_running = (\<lambda>x. running w x \<and> x \<notin> set ?sibs),
              o_fs_dir = fs_dir w, o_db_sessions = db_sessions w,
              o_session_cache = session_cache w, o_messages = messages w,
              o_broadcasts = broadcasts w\<rparr>"
      from executeSessionReset_listing_failed [OF unlisted, of c mid ts]
      obtain obs where eq: "?r =
         (Some (ReaddirSyncFailed (session_dir w f)),
          w\<lparr>running := (\<lambda>x. running w x \<and> x \<notin> set ?sibs),
            trace := trace w @ map StopGroupCalled ?sibs @ [ReaddirSyncCalled (session_dir w f)],
            observed := observed w @ obs @ [?ob]\<rparr>)"
        and len: "length obs = length ?sibs" and fr: "\<forall>ob \<in> set obs. ?frame1 ob"
        by blast
      have len': "length (map StopGroupCalled ?sibs) = length obs" using len by simp
      show ?thesis
        apply (rule exI [of _ "map StopGroupCalled ?sibs @ [ReaddirSyncCalled (session_dir w f)]"])
        apply (rule exI [of _ "obs @ [?ob]"])
        using len seg1 [OF fr]
        apply (simp add: eq Ball_zip_append [OF len'])
        done
    next
      case proceeds
      let ?R = "\<lambda>x. running w x \<and> x \<notin> set ?sibs"
      let ?g = "\<lambda>(db, cache, msgs).
                 \<lparr>o_running = ?R, o_fs_dir = ?D, o_db_sessions = db, o_session_cache = cache,
                  o_messages = msgs, o_broadcasts = broadcasts w\<rparr>"
      let ?t1 = "map ?g
            ([(db_sessions w, session_cache w, messages w),
              ((db_sessions w)(f := None), session_cache w, messages w),
              ((db_sessions w)(f := None), (session_cache w)(f := None), messages w),
              ((db_sessions w)(f := None), (session_cache w)(f := None), messages w)] @
             (if store_throws env then []
              else [((db_sessions w)(f := None), (session_cache w)(f := None),
                     messages w @ [?m])]))"
      let ?t2 = "(if store_throws env then []
           else [\<lparr>o_running = ?R, o_fs_dir = ?D,
                  o_db_sessions = (db_sessions w)(f := None),
                  o_session_cache = (session_cache w)(f := None),
                  o_messages = messages w @ [?m],
                  o_broadcasts = broadcasts w @ [(c, ?m)]\<rparr>])"
      let ?tail = "[DeleteSessionCalled f, SessionCacheDeleted f, EnsureChatExistsCalled c,
                  StoreMessageDirectCalled ?m] @
                 (if store_throws env then []
                  else [BroadcastCalled c ?m, LoggerInfo c f ?sibs])"
      from executeSessionReset_proceeds [OF proceeds, of c mid ts]
      obtain obs1 obs2 where
        tr: "trace (snd ?r) = trace w @ map StopGroupCalled ?sibs @
                 clearSessionFiles_events env f w @ ?tail"
        and ob: "observed (snd ?r) = observed w @ obs1 @ obs2 @ ?t1 @ ?t2"
        and len1: "length obs1 = length ?sibs" and fr1: "\<forall>ob \<in> set obs1. ?frame1 ob"
        and len2: "length obs2 = length (clearSessionFiles_events env f w)"
        and fr2: "\<forall>ob \<in> set obs2. o_running ob = ?R \<and>
          o_db_sessions ob = db_sessions w \<and> o_session_cache ob = session_cache w \<and>
          o_messages ob = messages w \<and> o_broadcasts ob = broadcasts w"
        by force
      have len1': "length (map StopGroupCalled ?sibs) = length obs1" using len1 by simp
      have len2': "length (clearSessionFiles_events env f w) = length obs2" using len2 by simp
      have stage1: "\<forall>e \<in> set (clearSessionFiles_events env f w). reset_stage e = 1"
        by (auto dest: clearSessionFiles_events_stage)
      have seg2: "\<forall>p \<in> set (zip (clearSessionFiles_events env f w) obs2). ?Q p"
        by (rule Ball_zipI [OF stage1 fr2]) simp
      have seg3: "\<forall>p \<in> set (zip ?tail (?t1 @ ?t2)). ?Q p"
        by simp
      have later: "\<forall>e \<in> set (clearSessionFiles_events env f w @ ?tail). 1 \<le> reset_stage e"
        using stage1 by auto
      show ?thesis
        apply (rule exI [of _ "map StopGroupCalled ?sibs @ clearSessionFiles_events env f w @ ?tail"])
        apply (rule exI [of _ "obs1 @ obs2 @ ?t1 @ ?t2"])
        using len1 len2 seg1 [OF fr1] seg2 seg3 later
        apply (simp add: tr ob Ball_zip_append [OF len1'] Ball_zip_append [OF len2']
                 del: zip_append)
        done
    qed
  qed
  then obtain evs obs where
    t: "trace (snd ?r) = trace w @ evs" and o: "observed (snd ?r) = observed w @ obs"
    and len: "length obs = length evs"
    and tk: "take (length ?sibs) evs = map StopGroupCalled ?sibs"
    and dr: "\<forall>e \<in> set (drop (length ?sibs) evs). 1 \<le> reset_stage e"
    and q: "\<forall>p \<in> set (zip evs obs). ?Q p"
    by blast
  from executeSessionReset_trace [of env c f mid ts w] t
  have s: "sorted (map reset_stage evs)" by auto
  have n: "new_events w (snd ?r) = evs" "new_observations w (snd ?r) = obs"
    by (simp_all add: new_events_def new_observations_def t o)
  have ord: "i < j" if "i < length evs" "j < length evs"
      "reset_stage (evs ! i) < reset_stage (evs ! j)" for i j
  proof (rule ccontr)
    assume "\<not> i < j"
    then have "j \<le> i" by simp
    with s that have "map reset_stage evs ! j \<le> map reset_stage evs ! i"
      by (intro sorted_nth_mono) auto
    with that show False by simp
  qed
  show ?thesis
    unfolding Let_def n using t o len tk dr q ord by blast
qed

theorem executeSessionReset_stop_then_delete_then_mark_witness:
  "new_events example_world example_after_reset ! 0 = StopGroupCalled ''web:g1'' \<and>
   new_events example_world example_after_reset ! 3 =
     RmSyncCalled ''data/sessions/f/.claude'' ''a.jsonl'' \<and>
   new_events example_world example_after_reset ! 9 =
     StoreMessageDirectCalled (divider_message ''web:g1'' ''id1'' ''t1'') \<and>
   o_fs_dir (new_observations example_world example_after_reset ! 0) = fs_dir example_world \<and>
   \<not> o_running (new_observations example_world example_after_reset ! 3) ''web:g1'' \<and>
   \<not> o_running (new_observations example_world example_after_reset ! 3) ''tg:g2'' \<and>
   o_fs_dir (new_observations example_world example_after_reset ! 9) ''data/sessions/f/.claude'' =
     Some [''settings.json''] \<and>
   o_db_sessions (new_observations example_world example_after_reset ! 9) ''f'' = None \<and>
   o_messages (new_observations example_world example_after_reset ! 9) = []"
proof -
  let ?evs = "new_events example_world example_after_reset"
  let ?obs = "new_observations example_world example_after_reset"
  note T = executeSessionReset_stop_then_delete_then_mark
             [of no_faults "''web:g1''" "''f''" "''id1''" "''t1''" example_world,
              unfolded Let_def example_reset_run snd_conv]
  note len = T [THEN conjunct2, THEN conjunct2, THEN conjunct1]
  note Q = T [THEN conjunct2, THEN conjunct2, THEN conjunct2, THEN conjunct2, THEN conjunct2,
              THEN conjunct2]
  have e: "?evs ! 0 = StopGroupCalled ''web:g1''"
    "?evs ! 3 = RmSyncCalled ''data/sessions/f/.claude'' ''a.jsonl''"
    "?evs ! 9 = StoreMessageDirectCalled (divider_message ''web:g1'' ''id1'' ''t1'')"
    "length ?evs = 12"
    by (simp_all add: example_after_reset_simps)
  have mem: "(?evs ! n, ?obs ! n) \<in> set (zip ?evs ?obs)" if "n < 12" for n
    unfolding in_set_zip using that len e(4) by (intro exI [of _ n]) simp
  from bspec [OF Q mem [of 0]] have 1: "o_fs_dir (?obs ! 0) = fs_dir example_world"
    by (simp add: e)
  from bspec [OF Q mem [of 3]] have 3: "\<not> o_running (?obs ! 3) ''web:g1''"
    "\<not> o_running (?obs ! 3) ''tg:g2''"
    by (simp_all add: e reset_examples)
  from bspec [OF Q mem [of 9]] have 9:
    "o_fs_dir (?obs ! 9) ''data/sessions/f/.claude'' = Some [''settings.json'']"
    "o_db_sessions (?obs ! 9) ''f'' = None" "o_messages (?obs ! 9) = []"
    by (simp_all add: e reset_examples)
  from e 1 3 9 show ?thesis by simp
qed

text \<open>
  C4 says that \<open>clearSessionFiles\<close> never throws. In the example the \<open>.claude\<close> directory of
  the folder exists and listing it fails: \<open>readdirSync\<close> is called outside the \<open>try\<close>, so its
  exception leaves the function.
\<close>

theorem clearSessionFiles_listing_counterexample:
  "fs_dir example_world (session_dir example_world ''f'') =
     Some [''a.jsonl'', ''settings.json'', ''projects'', ''b.jsonl''] \<and>
   fst (clearSessionFiles listing_fails ''f'' example_world) =
     Some (ReaddirSyncFailed ''data/sessions/f/.claude'')"
  by (simp add: clearSessionFiles_def Let_def reset_examples)

text \<open>
  C4, amended. \<open>clearSessionFiles\<close> throws exactly when the \<open>.claude\<close> directory of the folder
  exists and cannot be listed; then no entry is removed. When the directory does not
  exist the function changes nothing. When the directory is listed, of its entries
  exactly \<open>settings.json\<close> and the entries whose removal failed remain: every other entry
  is removed, \<open>settings.json\<close> is never removed (no removal is even attempted on it), and a
  failed removal leaves a warning in the log and the loop goes on with the next entry.
  No other directory is touched.
\<close>

theorem clearSessionFiles_allowlist_listing_may_throw:
  "fst (clearSessionFiles env f w) =
     (if fs_dir w (session_dir w f) \<noteq> None \<and> readdir_throws env (session_dir w f)
      then Some (ReaddirSyncFailed (session_dir w f)) else None) \<and>
   (fs_dir w (session_dir w f) = None \<longrightarrow> snd (clearSessionFiles env f w) = w) \<and>
   (fs_dir w (session_dir w f) = Some es \<and> readdir_throws env (session_dir w f) \<longrightarrow>
      fs_dir (snd (clearSessionFiles env f w)) = fs_dir w \<and>
      new_events w (snd (clearSessionFiles env f w)) = [ReaddirSyncCalled (session_dir w f)]) \<and>
   (fs_dir w (session_dir w f) = Some es \<and> \<not> readdir_throws env (session_dir w f) \<longrightarrow>
      fs_dir (snd (clearSessionFiles env f w)) (session_dir w f) =
        Some (filter (\<lambda>e. e = ''settings.json'' \<or> rm_throws env (session_dir w f) e) es) \<and>
      new_events w (snd (clearSessionFiles env f w)) =
        ReaddirSyncCalled (session_dir w f) #
        concat (map (removal_events env f (session_dir w f)) es)) \<and>
   (\<forall>p. p \<noteq> session_dir w f \<longrightarrow> fs_dir (snd (clearSessionFiles env f w)) p = fs_dir w p)"
proof -
  from clearSessionFiles_eq [of env f w] obtain obs where
    eq: "clearSessionFiles env f w =
       (if fs_dir w (session_dir w f) \<noteq> None \<and> readdir_throws env (session_dir w f)
        then Some (ReaddirSyncFailed (session_dir w f)) else None,
        w\<lparr>fs_dir := (fs_dir w)
            (session_dir w f :=
               if readdir_throws env (session_dir w f) then fs_dir w (session_dir w f)
               else map_option
                      (filter (\<lambda>e. e = ''settings.json'' \<or> rm_throws env (session_dir w f) e))
                      (fs_dir w (session_dir w f))),
          trace := trace w @ clearSessionFiles_events env f w,
          observed := observed w @ obs\<rparr>)"
    and len: "length obs = length (clearSessionFiles_events env f w)"
    by blast
  have none: "snd (clearSessionFiles env f w) = w" if "fs_dir w (session_dir w f) = None"
    using that len
    by (simp add: eq clearSessionFiles_events_def; (intro world.equality)?;
        (auto simp: fun_eq_iff)?)
  have failed: "fs_dir (snd (clearSessionFiles env f w)) = fs_dir w"
    if "readdir_throws env (session_dir w f)"
    using that by (simp add: eq)
  have events: "new_events w (snd (clearSessionFiles env f w)) = clearSessionFiles_events env f w"
    by (simp add: eq new_events_def)
  have kept: "fs_dir (snd (clearSessionFiles env f w)) (session_dir w f) =
        Some (filter (\<lambda>e. e = ''settings.json'' \<or> rm_throws env (session_dir w f) e) es)"
    if "fs_dir w (session_dir w f) = Some es" "\<not> readdir_throws env (session_dir w f)"
    using that by (simp add: eq)
  have others: "fs_dir (snd (clearSessionFiles env f w)) p = fs_dir w p"
    if "p \<noteq> session_dir w f" for p
    using that by (simp add: eq)
  have result: "fst (clearSessionFiles env f w) =
     (if fs_dir w (session_dir w f) \<noteq> None \<and> readdir_throws env (session_dir w f)
      then Some (ReaddirSyncFailed (session_dir w f)) else None)"
    by (simp add: eq)
  show ?thesis
    unfolding events result
    using none failed kept others
    by (auto simp: clearSessionFiles_events_def)
qed

theorem clearSessionFiles_allowlist_listing_may_throw_witness:
  "fst (clearSessionFiles projects_rm_fails ''f'' example_world) = None \<and>
   fs_dir (snd (clearSessionFiles projects_rm_fails ''f'' example_world)) ''data/sessions/f/.claude'' =
     Some [''settings.json'', ''projects''] \<and>
   new_events example_world (snd (clearSessionFiles projects_rm_fails ''f'' example_world)) =
     [ReaddirSyncCalled ''data/sessions/f/.claude'',
      RmSyncCalled ''data/sessions/f/.claude'' ''a.jsonl'',
      RmSyncCalled ''data/sessions/f/.claude'' ''projects'', LoggerWarn ''f'' ''projects'',
      RmSyncCalled ''data/sessions/f/.claude'' ''b.jsonl''] \<and>
   snd (clearSessionFiles projects_rm_fails ''o'' example_world) = example_world \<and>
   fst (clearSessionFiles listing_fails ''f'' example_world) =
     Some (ReaddirSyncFailed ''data/sessions/f/.claude'') \<and>
   fs_dir (snd (clearSessionFiles listing_fails ''f'' example_world)) = fs_dir example_world"
  using clearSessionFiles_allowlist_listing_may_throw
          [of projects_rm_fails "''f''" example_world
              "[''a.jsonl'', ''settings.json'', ''projects'', ''b.jsonl'']"]
        clearSessionFiles_allowlist_listing_may_throw
          [of projects_rm_fails "''o''" example_world "[]"]
        clearSessionFiles_allowlist_listing_may_throw
          [of listing_fails "''f''" example_world
              "[''a.jsonl'', ''settings.json'', ''projects'', ''b.jsonl'']"]
  by (simp add: reset_examples removal_events_def)

text \<open>
  C5 says that the marker has the content "context reset". In the example the reset
  succeeds and the one message of the history has the content \<open>context_reset\<close>, which is
  another string.
\<close>

theorem executeSessionReset_marker_content_counterexample:
  "fst (executeSessionReset no_faults ''web:g1'' ''f'' ''id1'' ''t1'' example_world) = None \<and>
   map content (messages (snd (executeSessionReset no_faults ''web:g1'' ''f'' ''id1'' ''t1'' example_world))) =
     [''context_reset''] \<and>
   ''context_reset'' \<noteq> ''context reset''"
  by (simp add: example_reset_run example_after_reset_simps divider_message_def)

text \<open>
  C5, amended. A successful \<open>executeSessionReset\<close> appends exactly one message to the
  message store: the system marker of the chat \<open>chatJid\<close>, with sender \<open>__system__\<close> and
  content \<open>context_reset\<close>. The history of \<open>chatJid\<close> grows by this message and the history
  of every other chat is unchanged. The same message is then broadcast to \<open>chatJid\<close>: the
  insertion, the broadcast and the final log line are the last three events of the call.
\<close>

theorem executeSessionReset_inserts_one_marker:
  assumes "executeSessionReset env c f mid ts w = (None, w')"
  shows "messages w' = messages w @ [divider_message c mid ts] \<and>
         filter (\<lambda>m. chat_jid m = c) (messages w') =
           filter (\<lambda>m. chat_jid m = c) (messages w) @ [divider_message c mid ts] \<and>
         filter (\<lambda>m. chat_jid m \<noteq> c) (messages w') = filter (\<lambda>m. chat_jid m \<noteq> c) (messages w) \<and>
         divider_message c mid ts =
           \<lparr>msg_id = mid, chat_jid = c, sender = ''__system__'', sender_name = ''system'',
            content = ''context_reset'', timestamp = ts, is_from_me = True\<rparr> \<and>
         broadcasts w' = broadcasts w @ [(c, divider_message c mid ts)] \<and>
         (\<exists>before. new_events w w' =
            before @ [StoreMessageDirectCalled (divider_message c mid ts),
                      BroadcastCalled c (divider_message c mid ts),
                      LoggerInfo c f (getJidsByFolder w f)])"
proof -
  note W = executeSessionReset_fulfilled_world [OF assms]
  have ev: "new_events w w' =
      (map StopGroupCalled (getJidsByFolder w f) @ clearSessionFiles_events env f w @
       [DeleteSessionCalled f, SessionCacheDeleted f, EnsureChatExistsCalled c]) @
      [StoreMessageDirectCalled (divider_message c mid ts),
       BroadcastCalled c (divider_message c mid ts),
       LoggerInfo c f (getJidsByFolder w f)]"
    using W by (simp add: new_events_def)
  have "\<exists>before. new_events w w' =
            before @ [StoreMessageDirectCalled (divider_message c mid ts),
                      BroadcastCalled c (divider_message c mid ts),
                      LoggerInfo c f (getJidsByFolder w f)]"
    unfolding ev by (rule exI) (rule refl)
  moreover have "chat_jid (divider_message c mid ts) = c"
    by (simp add: divider_message_def)
  moreover have "divider_message c mid ts =
           \<lparr>msg_id = mid, chat_jid = c, sender = ''__system__'', sender_name = ''system'',
            content = ''context_reset'', timestamp = ts, is_from_me = True\<rparr>"
    by (simp add: divider_message_def)
  ultimately show ?thesis using W by simp
qed

theorem executeSessionReset_inserts_one_marker_witness:
  "executeSessionReset no_faults ''web:g1'' ''f'' ''id1'' ''t1'' example_world =
     (None, snd (executeSessionReset no_faults ''web:g1'' ''f'' ''id1'' ''t1'' example_world)) \<and>
   messages (snd (executeSessionReset no_faults ''web:g1'' ''f'' ''id1'' ''t1'' example_world)) =
     [\<lparr>msg_id = ''id1'', chat_jid = ''web:g1'', sender = ''__system__'', sender_name = ''system'',
       content = ''context_reset'', timestamp = ''t1'', is_from_me = True\<rparr>] \<and>
   broadcasts (snd (executeSessionReset no_faults ''web:g1'' ''f'' ''id1'' ''t1'' example_world)) =
     [(''web:g1'',
       \<lparr>msg_id = ''id1'', chat_jid = ''web:g1'', sender = ''__system__'', sender_name = ''system'',
        content = ''context_reset'', timestamp = ''t1'', is_from_me = True\<rparr>)]"
  using executeSessionReset_inserts_one_marker [OF example_reset_run]
  by (simp add: example_reset_run reset_examples)

text \<open>
  C6 says that two resets in a row leave the same end state as one, and that the second
  never crashes. In the example a first reset succeeds although the removal of \<open>projects\<close>
  failed, and leaves \<open>projects\<close> in the directory; a second reset, with no failure,
  succeeds and removes it: the end state after two resets is not the one after one. And
  after a first reset with no failure, a second reset is rejected when the insertion of
  the marker fails, and when the directory cannot be listed.
\<close>

theorem executeSessionReset_twice_counterexample:
  "executeSessionReset projects_rm_fails ''web:g1'' ''f'' ''id1'' ''t1'' example_world =
     (None, example_after_failed_removal) \<and>
   fs_dir example_after_failed_removal ''data/sessions/f/.claude'' =
     Some [''settings.json'', ''projects''] \<and>
   fst (executeSessionReset no_faults ''web:g1'' ''f'' ''id2'' ''t2'' example_after_failed_removal) = None \<and>
   fs_dir (snd (executeSessionReset no_faults ''web:g1'' ''f'' ''id2'' ''t2''
                  example_after_failed_removal)) ''data/sessions/f/.claude'' =
     Some [''settings.json''] \<and>
   executeSessionReset no_faults ''web:g1'' ''f'' ''id1'' ''t1'' example_world =
     (None, example_after_reset) \<and>
   fst (executeSessionReset insertion_fails ''web:g1'' ''f'' ''id2'' ''t2'' example_after_reset) =
     Some StoreMessageFailed \<and>
   fst (executeSessionReset listing_fails ''web:g1'' ''f'' ''id2'' ''t2'' example_after_reset) =
     Some (ReaddirSyncFailed ''data/sessions/f/.claude'')"
  by (simp add: example_failed_removal_run example_reset_run example_second_reset_runs
        example_second_reset_directory example_after_failed_removal_simps)

text \<open>
  C6, amended. Let a first reset of the folder succeed. Then the folder has no session
  record and no cache entry, its directory holds only \<open>settings.json\<close> and the entries
  whose removal failed, and the marker is stored. A second reset of the same chat and
  folder right after it is never rejected by a stop: it fails only if the directory
  cannot be listed or the insertion of its marker fails. When it succeeds, the registered
  groups, the live sandboxes, the session records, the cache and the chat rows are as
  the first reset left them; the directory loses the entries left by the first reset that
  the second can remove, and is as the first reset left it when no removal failed in the
  first; and the store holds the two markers. No sibling owns a live sandbox after the
  first reset, hence after the second.
\<close>

theorem executeSessionReset_twice:
  assumes "executeSessionReset env1 c f mid1 ts1 w = (None, w1)"
  shows "db_sessions w1 f = None \<and> session_cache w1 f = None \<and>
     fs_dir w1 (session_dir w f) =
       map_option (filter (\<lambda>e. e = ''settings.json'' \<or> rm_throws env1 (session_dir w f) e))
         (fs_dir w (session_dir w f)) \<and>
     messages w1 = messages w @ [divider_message c mid1 ts1] \<and>
     (\<forall>s \<in> set (getJidsByFolder w f). \<not> running w1 s) \<and>
     (fst (executeSessionReset env2 c f mid2 ts2 w1) \<noteq> None \<longrightarrow>
        (fs_dir w1 (session_dir w f) \<noteq> None \<and> readdir_throws env2 (session_dir w f)) \<or>
        store_throws env2) \<and>
     (fst (executeSessionReset env2 c f mid2 ts2 w1) = None \<longrightarrow>
        registered (snd (executeSessionReset env2 c f mid2 ts2 w1)) = registered w1 \<and>
        running (snd (executeSessionReset env2 c f mid2 ts2 w1)) = running w1 \<and>
        db_sessions (snd (executeSessionReset env2 c f mid2 ts2 w1)) = db_sessions w1 \<and>
        session_cache (snd (executeSessionReset env2 c f mid2 ts2 w1)) = session_cache w1 \<and>
        chats (snd (executeSessionReset env2 c f mid2 ts2 w1)) = chats w1 \<and>
        fs_dir (snd (executeSessionReset env2 c f mid2 ts2 w1)) =
          (fs_dir w1)
            (session_dir w f :=
               map_option (filter (\<lambda>e. e = ''settings.json'' \<or> rm_throws env2 (session_dir w f) e))
                 (fs_dir w1 (session_dir w f))) \<and>
        ((\<forall>e. \<not> rm_throws env1 (session_dir w f) e) \<longrightarrow>
           fs_dir (snd (executeSessionReset env2 c f mid2 ts2 w1)) = fs_dir w1) \<and>
        messages (snd (executeSessionReset env2 c f mid2 ts2 w1)) =
          messages w @ [divider_message c mid1 ts1, divider_message c mid2 ts2])"
proof -
  let ?d = "session_dir w f"
  let ?r2 = "executeSessionReset env2 c f mid2 ts2 w1"
  note W = executeSessionReset_fulfilled_world [OF assms]
  from W have reg: "registered w1 = registered w" and sd: "session_dir w1 = session_dir w"
    and run: "running w1 = (\<lambda>x. running w x \<and> x \<notin> set (getJidsByFolder w f))"
    and fs: "fs_dir w1 = (fs_dir w)
          (?d := map_option (filter (\<lambda>e. e = ''settings.json'' \<or> rm_throws env1 ?d e))
               (fs_dir w ?d))"
    and db: "db_sessions w1 = (db_sessions w)(f := None)"
    and cache: "session_cache w1 = (session_cache w)(f := None)"
    and ch: "chats w1 = (chats w)(c := True)"
    and msgs: "messages w1 = messages w @ [divider_message c mid1 ts1]"
    by blast+
  have sibs: "getJidsByFolder w1 f = getJidsByFolder w f"
    by (rule getJidsByFolder_registered [OF reg])
  have stops2: "\<not> (\<exists>j \<in> set (getJidsByFolder w1 f). running w1 j \<and> stop_rejects env2 j)"
    unfolding sibs run by simp
  have rejected2: "(fs_dir w1 ?d \<noteq> None \<and> readdir_throws env2 ?d) \<or> store_throws env2"
    if rej: "fst ?r2 \<noteq> None"
  proof (rule ccontr)
    assume n: "\<not> ((fs_dir w1 ?d \<noteq> None \<and> readdir_throws env2 ?d) \<or> store_throws env2)"
    then have l: "\<not> (fs_dir w1 (session_dir w1 f) \<noteq> None \<and>
                      readdir_throws env2 (session_dir w1 f))"
      by (simp add: sd)
    from executeSessionReset_insertion_result [OF stops2 l, of c mid2 ts2] n rej
    show False by simp
  qed
  have fulfilled2:
    "registered (snd ?r2) = registered w1 \<and> running (snd ?r2) = running w1 \<and>
     db_sessions (snd ?r2) = db_sessions w1 \<and> session_cache (snd ?r2) = session_cache w1 \<and>
     chats (snd ?r2) = chats w1 \<and>
     fs_dir (snd ?r2) = (fs_dir w1)
            (?d := map_option (filter (\<lambda>e. e = ''settings.json'' \<or> rm_throws env2 ?d e))
                 (fs_dir w1 ?d)) \<and>
     ((\<forall>e. \<not> rm_throws env1 ?d e) \<longrightarrow> fs_dir (snd ?r2) = fs_dir w1) \<and>
     messages (snd ?r2) = messages w @ [divider_message c mid1 ts1, divider_message c mid2 ts2]"
    if ok: "fst ?r2 = None"
  proof -
    from ok have eq: "?r2 = (None, snd ?r2)" by (simp add: prod_eq_iff)
    note W2 = executeSessionReset_fulfilled_world [OF eq, unfolded sibs sd]
    have r: "(\<lambda>x. running w1 x \<and> x \<notin> set (getJidsByFolder w f)) = running w1"
      unfolding run by (intro ext) auto
    have d: "(db_sessions w1)(f := None) = db_sessions w1"
      "(session_cache w1)(f := None) = session_cache w1" "(chats w1)(c := True) = chats w1"
      unfolding db cache ch by simp_all
    have stable: "(fs_dir w1)
            (?d := map_option (filter (\<lambda>e. e = ''settings.json'' \<or> rm_throws env2 ?d e))
                 (fs_dir w1 ?d)) = fs_dir w1"
      if "\<forall>e. \<not> rm_throws env1 ?d e"
      unfolding fs using that
      by (cases "fs_dir w ?d") (auto simp: fun_eq_iff intro: filter_cong)
    show ?thesis
      using W2 stable by (simp add: r d msgs)
  qed
  have first: "db_sessions w1 f = None" "session_cache w1 f = None"
     "fs_dir w1 ?d = map_option (filter (\<lambda>e. e = ''settings.json'' \<or> rm_throws env1 ?d e))
         (fs_dir w ?d)"
    by (simp_all add: db cache fs)
  have stopped: "\<forall>s \<in> set (getJidsByFolder w f). \<not> running w1 s"
    by (simp add: run)
  show ?thesis
    using first msgs stopped rejected2 fulfilled2 by blast
qed

theorem executeSessionReset_twice_witness:
  "executeSessionReset no_faults ''web:g1'' ''f'' ''id1'' ''t1'' example_world =
     (None, example_after_reset) \<and>
   \<not> running example_after_reset ''web:g1'' \<and> \<not> running example_after_reset ''tg:g2'' \<and>
   fst (executeSessionReset no_faults ''web:g1'' ''f'' ''id2'' ''t2'' example_after_reset) = None \<and>
   db_sessions (snd (executeSessionReset no_faults ''web:g1'' ''f'' ''id2'' ''t2'' example_after_reset)) ''f'' = None \<and>
   session_cache (snd (executeSessionReset no_faults ''web:g1'' ''f'' ''id2'' ''t2'' example_after_reset)) ''f'' = None \<and>
   fs_dir (snd (executeSessionReset no_faults ''web:g1'' ''f'' ''id2'' ''t2'' example_after_reset))
       ''data/sessions/f/.claude'' = Some [''settings.json''] \<and>
   map msg_id (messages (snd (executeSessionReset no_faults ''web:g1'' ''f'' ''id2'' ''t2'' example_after_reset))) =
     [''id1'', ''id2'']"
  using executeSessionReset_twice [OF example_reset_run, of no_faults "''id2''" "''t2''"]
  by (simp add: example_reset_run example_second_reset_runs reset_examples
        example_after_reset_simps divider_message_def)

section \<open>Properties of the daily summary job\<close>


lemma runDailySummaryIfNeeded_window:
  "fst (runDailySummaryIfNeeded getLocalHour now lastCheckTime) \<Longrightarrow>
     getLocalHour now = 2 \<and> now - lastCheckTime \<ge> CHECK_INTERVAL_MS \<and>
     snd (runDailySummaryIfNeeded getLocalHour now lastCheckTime) = now"
  by (auto simp: runDailySummaryIfNeeded_def Let_def split: if_splits)

text \<open>
  C7 says that summary generation is invoked at most once per calendar hour and never
  outside the 2:00-3:00 window. The window part holds (lemma above). The other part does
  not: the throttle is 55 minutes. With the time zone UTC and a fresh process, of the
  ticks from 02:00:00 to 02:59:00 of one day both the tick of 02:00:00 and the tick of
  02:55:00 call \<open>generateSummaries\<close>: twice in one calendar hour.
\<close>

theorem runDailySummaryIfNeeded_twice_in_one_hour:
  "scheduler_ticks utc_hour ticks_of_two_am 0 = [1767232800000, 1767236100000] \<and>
   calendar_hour 1767232800000 = calendar_hour 1767236100000 \<and>
   utc_hour 1767232800000 = 2 \<and> utc_hour 1767236100000 = 2 \<and>
   1767236100000 - 1767232800000 = CHECK_INTERVAL_MS"
  by (simp add: ticks_of_two_am_def upt_conv_Cons runDailySummaryIfNeeded_def CHECK_INTERVAL_MS_def utc_hour_def calendar_hour_def)

section \<open>Properties of the Group Execution Queue\<close>

lemma entry_of_set_entry:
  "entry_of (set_entry k e q) k' = (if k' = k then e else entry_of q k')"
  by (cases e) (auto simp: entry_of_def set_entry_def)

lemma live_handles_set_entry: "live_handles (set_entry k e q) = live_handles q"
  by (simp add: set_entry_def)

lemma entry_of_live_update:
  "entry_of (q\<lparr>live_handles := l\<rparr>) k = entry_of q k"
  "entry_of (q\<lparr>live_handles := l, next_handle := n\<rparr>) k = entry_of q k"
  by (simp_all add: entry_of_def)

lemma entry_of_release_to:
  "entry_of (release_to st k q) k' =
     (if k' = k then (entry_of q k)\<lparr>q_state := st, ownerHandle := None\<rparr> else entry_of q k')"
  by (simp add: release_to_def entry_of_set_entry entry_of_live_update)

lemma live_handles_release_to:
  "live_handles (release_to st k q) k' =
     (if k' = k then filter (\<lambda>h. Some h \<noteq> ownerHandle (entry_of q k)) (live_handles q k)
      else live_handles q k')"
  by (simp add: release_to_def live_handles_set_entry)

lemmas queue_simps =
  entry_of_set_entry live_handles_set_entry entry_of_live_update entry_of_release_to
  live_handles_release_to

lemma queue_invariant_empty: "queue_invariant empty_queue"
  by (simp add: queue_invariant_def empty_queue_def entry_of_def)

lemma queue_invariant_release:
  assumes "queue_invariant q" and "st = IDLE \<or> st = QUEUED"
  shows "queue_invariant (release_to st k q)"
  using assms
  by (auto simp: queue_invariant_def queue_simps split: option.splits)

lemma queue_invariant_step:
  assumes "queue_invariant q"
  shows "queue_invariant (queue_step ev q)"
proof (cases ev)
  case (Enqueue k)
  with assms show ?thesis
    by (auto simp: queue_invariant_def queue_simps Let_def split: option.splits)
next
  case (EnsureStarted k)
  with assms show ?thesis
    by (auto simp: queue_invariant_def queue_simps Let_def split: option.splits)
next
  case (Dispatch k)
  with assms show ?thesis
    by (auto simp: queue_invariant_def queue_simps Let_def split: option.splits)
next
  case (DispatchFailure k)
  with assms show ?thesis
    by (auto simp: queue_invariant_def queue_simps Let_def split: option.splits)
next
  case (Completes k)
  with assms show ?thesis
    by (simp add: Let_def queue_invariant_release)
next
  case (StopGroup k force)
  with assms queue_invariant_release [OF assms, of IDLE k] show ?thesis
    by (auto simp: queue_invariant_def queue_simps Let_def split: option.splits)
next
  case (GracefulExit k)
  with assms show ?thesis by (simp add: queue_invariant_release)
next
  case (GraceTimeout k)
  with assms show ?thesis by (simp add: queue_invariant_release)
next
  case (SandboxCrash k)
  with assms show ?thesis by (simp add: Let_def queue_invariant_release)
qed

lemma queue_invariant_after: "queue_invariant (queue_after evs)"
  unfolding queue_after_def
  by (induction evs rule: rev_induct) (simp_all add: queue_invariant_empty queue_invariant_step)

lemma enters_running:
  assumes "q_state (entry_of q k) \<noteq> RUNNING"
    and "q_state (entry_of (queue_step ev q) k) = RUNNING"
  shows "ev = Dispatch k \<and> q_state (entry_of q k) = QUEUED \<and> ownerHandle (entry_of q k) = None"
  using assms
  by (cases ev) (auto simp: queue_simps Let_def split: if_splits)

text \<open>
  C3. In every queue reachable from the empty queue, a group key has at most one live
  sandbox handle. A step that takes the entry of a key into RUNNING is a dispatch of that
  key, it happens only when the entry owns no handle (the check of the dispatch) and no
  sandbox of the key is live, and after it exactly one is.
\<close>

theorem queue_one_live_handle_per_key:
  "length (live_handles (queue_after evs) k) \<le> 1 \<and>
   (q_state (entry_of (queue_after evs) k) \<noteq> RUNNING \<and>
    q_state (entry_of (queue_step ev (queue_after evs)) k) = RUNNING \<longrightarrow>
      ev = Dispatch k \<and> ownerHandle (entry_of (queue_after evs) k) = None \<and>
      live_handles (queue_after evs) k = [] \<and>
      length (live_handles (queue_step ev (queue_after evs)) k) = 1)"
proof -
  have inv: "queue_invariant (queue_after evs)" by (rule queue_invariant_after)
  have inv': "queue_invariant (queue_step ev (queue_after evs))"
    by (rule queue_invariant_step [OF inv])
  have invk: "live_handles (queue_after evs) k =
      (case ownerHandle (entry_of (queue_after evs) k) of None \<Rightarrow> [] | Some h \<Rightarrow> [h])"
    using inv unfolding queue_invariant_def by blast
  have invk': "live_handles (queue_step ev (queue_after evs)) k =
      (case ownerHandle (entry_of (queue_step ev (queue_after evs)) k) of None \<Rightarrow> [] | Some h \<Rightarrow> [h])"
    "(ownerHandle (entry_of (queue_step ev (queue_after evs)) k) = None) =
      (q_state (entry_of (queue_step ev (queue_after evs)) k) = IDLE \<or>
       q_state (entry_of (queue_step ev (queue_after evs)) k) = QUEUED)"
    using inv' unfolding queue_invariant_def by blast+
  have 1: "length (live_handles (queue_after evs) k) \<le> 1"
    by (simp add: invk split: option.splits)
  have 2: "ev = Dispatch k \<and> ownerHandle (entry_of (queue_after evs) k) = None \<and>
      live_handles (queue_after evs) k = [] \<and>
      length (live_handles (queue_step ev (queue_after evs)) k) = 1"
    if a: "q_state (entry_of (queue_after evs) k) \<noteq> RUNNING"
      and b: "q_state (entry_of (queue_step ev (queue_after evs)) k) = RUNNING"
  proof -
    from enters_running [OF a b] have d: "ev = Dispatch k"
      and o: "ownerHandle (entry_of (queue_after evs) k) = None" by auto
    from o have l: "live_handles (queue_after evs) k = []"
      by (simp add: invk)
    from invk'(2) b have "ownerHandle (entry_of (queue_step ev (queue_after evs)) k) \<noteq> None"
      by simp
    then have "length (live_handles (queue_step ev (queue_after evs)) k) = 1"
      by (auto simp: invk'(1))
    with d o l show ?thesis by simp
  qed
  from 1 2 show ?thesis by blast
qed

lemma entry_of_empty_queue:
  "entry_of empty_queue k = \<lparr>q_state = IDLE, pendingCount = 0, ownerHandle = None\<rparr>"
  by (simp add: entry_of_def empty_queue_def)

lemma queue_examples:
  "q_state (entry_of (queue_after [Enqueue ''g'']) ''g'') = QUEUED"
  "q_state (entry_of (queue_step (Dispatch ''g'') (queue_after [Enqueue ''g''])) ''g'') = RUNNING"
  by (simp_all add: queue_after_def queue_simps entry_of_empty_queue Let_def)

theorem queue_one_live_handle_per_key_witness:
  "q_state (entry_of (queue_after [Enqueue ''g'']) ''g'') \<noteq> RUNNING \<and>
   q_state (entry_of (queue_step (Dispatch ''g'') (queue_after [Enqueue ''g''])) ''g'') = RUNNING \<and>
   ownerHandle (entry_of (queue_after [Enqueue ''g'']) ''g'') = None \<and>
   live_handles (queue_after [Enqueue ''g'']) ''g'' = [] \<and>
   length (live_handles (queue_step (Dispatch ''g'') (queue_after [Enqueue ''g''])) ''g'') = 1 \<and>
   length (live_handles
     (queue_after [Enqueue ''g'', Dispatch ''g'', Enqueue ''g'', Dispatch ''g'',
                   StopGroup ''g'' True, Enqueue ''g'', Dispatch ''g'']) ''g'') \<le> 1"
proof -
  have h: "q_state (entry_of (queue_after [Enqueue ''g'']) ''g'') \<noteq> RUNNING"
    by (simp only: queue_examples QueueState.distinct not_False_eq_True)
  from h queue_examples(2)
       queue_one_live_handle_per_key [of "[Enqueue ''g'']" "''g''" "Dispatch ''g''"]
       queue_one_live_handle_per_key
          [of "[Enqueue ''g'', Dispatch ''g'', Enqueue ''g'', Dispatch ''g'',
                StopGroup ''g'' True, Enqueue ''g'', Dispatch ''g'']" "''g''" "Dispatch ''g''"]
  show ?thesis by blast
qed

end
